theory Spec2Isabelle
  imports Main "HOL-Library.Word" "HOL-Library.Sublist" "HOL-Library.Multiset"
begin

unbundle bit_operations_syntax

section \<open>Strings\<close>

text \<open>
  A JavaScript string is modelled as a \<^typ>\<open>string\<close> whose characters are the code points
  U+0000 to U+00FF, one UTF-16 code unit each.  Code points beyond U+00FF are outside the
  model.  An optional field or argument (\<^verbatim>\<open>string | undefined\<close>) is a \<^typ>\<open>string option\<close>;
  \<^verbatim>\<open>undefined\<close> is \<^term>\<open>None\<close>.
\<close>

definition truthy :: "string option \<Rightarrow> bool" where
  \<comment> \<open>JavaScript truthiness of a \<^verbatim>\<open>string | undefined\<close>: \<^verbatim>\<open>undefined\<close> and \<^verbatim>\<open>""\<close> are falsy.\<close>
  "truthy v = (case v of None \<Rightarrow> False | Some s \<Rightarrow> s \<noteq> [])"

fun join_str :: "string \<Rightarrow> string list \<Rightarrow> string" where
  \<comment> \<open>\<^verbatim>\<open>Array.prototype.join\<close> on an array of strings.\<close>
  "join_str sep [] = []"
| "join_str sep [x] = x"
| "join_str sep (x # y # ys) = x @ sep @ join_str sep (y # ys)"

section \<open>SHA-256 (FIPS 180-4), the digest behind \<^verbatim>\<open>createHash('sha256')\<close>\<close>

type_synonym u32 = "32 word"

type_synonym sha_state = "u32 \<times> u32 \<times> u32 \<times> u32 \<times> u32 \<times> u32 \<times> u32 \<times> u32"

definition rotr :: "nat \<Rightarrow> u32 \<Rightarrow> u32" where
  "rotr n x = drop_bit n x OR push_bit (32 - n) x"

definition Ch :: "u32 \<Rightarrow> u32 \<Rightarrow> u32 \<Rightarrow> u32" where
  "Ch x y z = (x AND y) XOR (NOT x AND z)"

definition Maj :: "u32 \<Rightarrow> u32 \<Rightarrow> u32 \<Rightarrow> u32" where
  "Maj x y z = (x AND y) XOR (x AND z) XOR (y AND z)"

definition bsig0 :: "u32 \<Rightarrow> u32" where
  "bsig0 x = rotr 2 x XOR rotr 13 x XOR rotr 22 x"

definition bsig1 :: "u32 \<Rightarrow> u32" where
  "bsig1 x = rotr 6 x XOR rotr 11 x XOR rotr 25 x"

definition ssig0 :: "u32 \<Rightarrow> u32" where
  "ssig0 x = rotr 7 x XOR rotr 18 x XOR drop_bit 3 x"

definition ssig1 :: "u32 \<Rightarrow> u32" where
  "ssig1 x = rotr 17 x XOR rotr 19 x XOR drop_bit 10 x"

definition sha256_K :: "u32 list" where
  \<comment> \<open>The sixty-four round constants, four to a row.\<close>
  "sha256_K =
     [0x428a2f98, 0x71374491, 0xb5c0fbcf, 0xe9b5dba5] @
     [0x3956c25b, 0x59f111f1, 0x923f82a4, 0xab1c5ed5] @
     [0xd807aa98, 0x12835b01, 0x243185be, 0x550c7dc3] @
     [0x72be5d74, 0x80deb1fe, 0x9bdc06a7, 0xc19bf174] @
     [0xe49b69c1, 0xefbe4786, 0x0fc19dc6, 0x240ca1cc] @
     [0x2de92c6f, 0x4a7484aa, 0x5cb0a9dc, 0x76f988da] @
     [0x983e5152, 0xa831c66d, 0xb00327c8, 0xbf597fc7] @
     [0xc6e00bf3, 0xd5a79147, 0x06ca6351, 0x14292967] @
     [0x27b70a85, 0x2e1b2138, 0x4d2c6dfc, 0x53380d13] @
     [0x650a7354, 0x766a0abb, 0x81c2c92e, 0x92722c85] @
     [0xa2bfe8a1, 0xa81a664b, 0xc24b8b70, 0xc76c51a3] @
     [0xd192e819, 0xd6990624, 0xf40e3585, 0x106aa070] @
     [0x19a4c116, 0x1e376c08, 0x2748774c, 0x34b0bcb5] @
     [0x391c0cb3, 0x4ed8aa4a, 0x5b9cca4f, 0x682e6ff3] @
     [0x748f82ee, 0x78a5636f, 0x84c87814, 0x8cc70208] @
     [0x90befffa, 0xa4506ceb, 0xbef9a3f7, 0xc67178f2]"

definition sha256_H0 :: sha_state where
  "sha256_H0 =
    (0x6a09e667, 0xbb67ae85, 0x3c6ef372, 0xa54ff53a, 0x510e527f, 0x9b05688c, 0x1f83d9ab, 0x5be0cd19)"

definition utf8_char :: "char \<Rightarrow> nat list" where
  \<comment> \<open>\<^verbatim>\<open>update(input)\<close> hashes the UTF-8 encoding: one byte below U+0080, two up to U+00FF.\<close>
  "utf8_char c = (let n = (of_char c :: nat) in
     if n < 128 then [n] else [192 + n div 64, 128 + n mod 64])"

definition utf8 :: "string \<Rightarrow> nat list" where
  "utf8 s = concat (map utf8_char s)"

definition be64 :: "nat \<Rightarrow> nat list" where
  "be64 n = map (\<lambda>i. unat (drop_bit (56 - 8 * i) (of_nat n :: 64 word) AND 255))
              [0, 1, 2, 3, 4, 5, 6, 7]"

definition sha256_pad :: "nat list \<Rightarrow> nat list" where
  "sha256_pad bs =
     bs @ [128] @ replicate ((119 - length bs mod 64) mod 64) 0 @ be64 (8 * length bs)"

fun be_words :: "nat list \<Rightarrow> u32 list" where
  "be_words (a # b # c # d # bs) =
     (push_bit 24 (of_nat a) OR push_bit 16 (of_nat b) OR push_bit 8 (of_nat c) OR of_nat d)
       # be_words bs"
| "be_words _ = []"

definition next_window :: "u32 list \<Rightarrow> u32 list" where
  \<comment> \<open>The message schedule as a window of sixteen words: from \<open>W\<^sub>t .. W\<^sub>t\<^sub>+\<^sub>1\<^sub>5\<close> to
      \<open>W\<^sub>t\<^sub>+\<^sub>1 .. W\<^sub>t\<^sub>+\<^sub>1\<^sub>6\<close>.\<close>
  "next_window w = tl w @ [ssig1 (w ! 14) + w ! 9 + ssig0 (w ! 1) + w ! 0]"

definition sha256_round :: "sha_state \<Rightarrow> u32 \<times> u32 \<Rightarrow> sha_state" where
  "sha256_round s kw =
     (case s of (a, b, c, d, e, f, g, h) \<Rightarrow>
      (let t1 = h + bsig1 e + Ch e f g + fst kw + snd kw;
           t2 = bsig0 a + Maj a b c
       in (t1 + t2, a, b, c, d + t1, e, f, g)))"

definition sha_add :: "sha_state \<Rightarrow> sha_state \<Rightarrow> sha_state" where
  "sha_add s t =
     (case s of (a, b, c, d, e, f, g, h) \<Rightarrow>
      case t of (a', b', c', d', e', f', g', h') \<Rightarrow>
        (a + a', b + b', c + c', d + d', e + e', f + f', g + g', h + h'))"

fun sha256_rounds :: "u32 list \<Rightarrow> u32 list \<Rightarrow> sha_state \<Rightarrow> sha_state" where
  "sha256_rounds [] w s = s"
| "sha256_rounds (k # ks) w s = sha256_rounds ks (next_window w) (sha256_round s (k, hd w))"

definition sha256_block :: "sha_state \<Rightarrow> u32 list \<Rightarrow> sha_state" where
  "sha256_block hs m = sha_add hs (sha256_rounds sha256_K m hs)"

fun sha256_blocks :: "sha_state \<Rightarrow> u32 list \<Rightarrow> sha_state" where
  "sha256_blocks hs (w0 # ws) = sha256_blocks (sha256_block hs (take 16 (w0 # ws))) (drop 15 ws)"
| "sha256_blocks hs [] = hs"

definition lower_hex :: string where
  "lower_hex = ''0123456789abcdef''"

definition hex_digit :: "nat \<Rightarrow> char" where
  "hex_digit n = lower_hex ! n"

definition hex32 :: "u32 \<Rightarrow> string" where
  "hex32 w = map (\<lambda>i. hex_digit (unat (drop_bit (28 - 4 * i) w AND 15)))
               [0, 1, 2, 3, 4, 5, 6, 7]"

definition sha256_hex :: "string \<Rightarrow> string" where
  \<comment> \<open>\<^verbatim>\<open>createHash('sha256').update(input).digest('hex')\<close>\<close>
  "sha256_hex s =
     (case sha256_blocks sha256_H0 (be_words (sha256_pad (utf8 s))) of
        (a, b, c, d, e, f, g, h) \<Rightarrow> concat (map hex32 [a, b, c, d, e, f, g, h]))"

definition round_out ::
  "u32 \<Rightarrow> u32 \<Rightarrow> u32 \<Rightarrow> u32 \<Rightarrow> u32 \<Rightarrow> u32 \<Rightarrow> u32 \<Rightarrow> u32 \<Rightarrow> u32 \<Rightarrow> sha_state" where
  \<comment> \<open>The end of a round with the two temporaries as arguments (an evaluation aid).\<close>
  "round_out a b c d e f g t1 t2 = (take_bit 32 (t1 + t2), a, b, c, take_bit 32 (d + t1), e, f, g)"

section \<open>The anonymizer (\<^verbatim>\<open>src/lib/git/anonymizer.ts\<close>)\<close>

definition createConsistentHash :: "string \<Rightarrow> nat \<Rightarrow> string" where
  \<comment> \<open>\<^verbatim>\<open>digest('hex').substring(0, length)\<close>; every caller takes the default length 8.\<close>
  "createConsistentHash input len = take len (sha256_hex input)"

subsection \<open>The pattern \<^verbatim>\<open>/^(feat|fix|...|revert)(\([\w-]+\))?:\s*/i\<close>\<close>

definition to_lower :: "char \<Rightarrow> char" where
  \<comment> \<open>Case folding of the \<^verbatim>\<open>i\<close> flag: without the \<^verbatim>\<open>u\<close> flag no character beyond
      ASCII is folded onto an ASCII letter.\<close>
  "to_lower c =
     (case map_of (zip ''ABCDEFGHIJKLMNOPQRSTUVWXYZ'' ''abcdefghijklmnopqrstuvwxyz'') c of
        Some l \<Rightarrow> l
      | None \<Rightarrow> c)"

definition is_word_char :: "char \<Rightarrow> bool" where
  \<comment> \<open>\<^verbatim>\<open>\w\<close>\<close>
  "is_word_char c =
     (c \<in> set ''ABCDEFGHIJKLMNOPQRSTUVWXYZabcdefghijklmnopqrstuvwxyz0123456789_'')"

definition is_scope_char :: "char \<Rightarrow> bool" where
  \<comment> \<open>\<^verbatim>\<open>[\w-]\<close>\<close>
  "is_scope_char c = (is_word_char c \<or> c = CHR ''-'')"

definition is_space :: "char \<Rightarrow> bool" where
  \<comment> \<open>\<^verbatim>\<open>\s\<close> below U+0100: tab, line feed, vertical tab, form feed, carriage return, space,
      no-break space.\<close>
  "is_space c =
     (c \<in> set [CHR 0x09, CHR 0x0A, CHR 0x0B, CHR 0x0C, CHR 0x0D, CHR 0x20, CHR 0xA0])"

definition conventional_types :: "string list" where
  "conventional_types =
     [''feat'', ''fix'', ''docs'', ''style'', ''refactor'', ''perf'', ''test'', ''chore'',
      ''build'', ''ci'', ''revert'']"

definition match_scope :: "string \<Rightarrow> string option" where
  \<comment> \<open>\<^verbatim>\<open>\([\w-]+\)\<close> at the start of \<open>s\<close>: the text it matches.  The class excludes the closing
      parenthesis, so the greedy run is the only candidate.\<close>
  "match_scope s =
     (case s of
        [] \<Rightarrow> None
      | c # r \<Rightarrow>
          (let w = takeWhile is_scope_char r; r' = dropWhile is_scope_char r
           in if c = CHR ''('' \<and> w \<noteq> [] \<and> r' \<noteq> [] \<and> hd r' = CHR '')''
              then Some (c # w @ [CHR '')''])
              else None))"

definition match_colon_space :: "string \<Rightarrow> string option" where
  \<comment> \<open>\<^verbatim>\<open>:\s*\<close> at the start of \<open>s\<close>, the star greedy.\<close>
  "match_colon_space s =
     (case s of
        [] \<Rightarrow> None
      | c # r \<Rightarrow> if c = CHR '':'' then Some (c # takeWhile is_space r) else None)"

definition match_tail :: "string \<Rightarrow> string option" where
  \<comment> \<open>\<^verbatim>\<open>(\([\w-]+\))?:\s*\<close>: the optional group is tried first, then skipped.\<close>
  "match_tail s =
     (case match_scope s of
        Some sc \<Rightarrow>
          (case match_colon_space (drop (length sc) s) of
             Some t \<Rightarrow> Some (sc @ t)
           | None \<Rightarrow> match_colon_space s)
      | None \<Rightarrow> match_colon_space s)"

fun match_types :: "string list \<Rightarrow> string \<Rightarrow> string option" where
  \<comment> \<open>The alternatives in their order; a failure of the rest of the pattern backtracks into
      the next alternative.\<close>
  "match_types [] s = None"
| "match_types (k # ks) s =
     (if length k \<le> length s \<and> map to_lower (take (length k) s) = k
      then (case match_tail (drop (length k) s) of
              Some t \<Rightarrow> Some (take (length k) s @ t)
            | None \<Rightarrow> match_types ks s)
      else match_types ks s)"

definition conventionalPrefixPattern :: "string \<Rightarrow> string option" where
  \<comment> \<open>\<^verbatim>\<open>message.match(conventionalPrefixPattern)\<close>: \<^verbatim>\<open>match[0]\<close>, or \<^term>\<open>None\<close> for \<^verbatim>\<open>null\<close>.\<close>
  "conventionalPrefixPattern message = match_types conventional_types message"

subsection \<open>The exported functions\<close>

definition anonymizeMessage :: "string option \<Rightarrow> string" where
  "anonymizeMessage message =
     (if \<not> truthy message then ''hash_'' @ createConsistentHash ''empty'' 8
      else
        (case conventionalPrefixPattern (the message) of
           Some prefix' \<Rightarrow>
             (let content = drop (length prefix') (the message)
              in prefix' @ ''hash_'' @ createConsistentHash content 8)
         | None \<Rightarrow> ''hash_'' @ createConsistentHash (the message) 8))"

definition anonymizeRepository :: "string option \<Rightarrow> string" where
  "anonymizeRepository repository =
     (if \<not> truthy repository then ''repo_'' @ createConsistentHash ''unknown'' 8
      else ''repo_'' @ createConsistentHash (the repository) 8)"

datatype text_kind = Commit | Pr | Review

fun kind_name :: "text_kind \<Rightarrow> string" where
  "kind_name Commit = ''commit''"
| "kind_name Pr = ''pr''"
| "kind_name Review = ''review''"

definition anonymizeText :: "string option \<Rightarrow> text_kind \<Rightarrow> string" where
  "anonymizeText txt kind =
     (if \<not> truthy txt
      then kind_name kind @ ''_hash_'' @ createConsistentHash (kind_name kind @ ''_empty'') 8
      else if kind = Commit then anonymizeMessage txt
      else kind_name kind @ ''_hash_'' @ createConsistentHash (the txt) 8)"

subsection \<open>The prefix grammar of the specification\<close>

definition is_scope :: "string \<Rightarrow> bool" where
  \<comment> \<open>Nothing, or a parenthesised scope of one or more word characters and hyphens.\<close>
  "is_scope sc =
     (sc = [] \<or> (\<exists>w. w \<noteq> [] \<and> list_all is_scope_char w \<and> sc = ''('' @ w @ '')''))"

definition conventional_prefix :: "string \<Rightarrow> bool" where
  \<comment> \<open>A keyword of the fixed set in any case, an optional scope, a colon, optional
      whitespace.\<close>
  "conventional_prefix p =
     (\<exists>k sc ws. map to_lower k \<in> set conventional_types \<and> is_scope sc \<and>
        list_all is_space ws \<and> p = k @ sc @ '':'' @ ws)"

definition begins_with_prefix :: "string \<Rightarrow> bool" where
  "begins_with_prefix m = (\<exists>p r. conventional_prefix p \<and> m = p @ r)"

definition is_hex8 :: "string \<Rightarrow> bool" where
  \<comment> \<open>\<^verbatim>\<open>[0-9a-f]{8}\<close>\<close>
  "is_hex8 h = (length h = 8 \<and> set h \<subseteq> set lower_hex)"

section \<open>The process, the filesystem and the version-control tool\<close>

text \<open>
  The source drives three collaborators that are not part of it: the Node.js process
  (\<^verbatim>\<open>process.env\<close>, \<^verbatim>\<open>process.cwd()\<close>, the console, \<^verbatim>\<open>Date\<close> and \<^verbatim>\<open>dayjs\<close>), the filesystem
  (\<^verbatim>\<open>existsSync\<close>, \<^verbatim>\<open>mkdirSync\<close>) and the git command behind \<^verbatim>\<open>simple-git\<close>.  Their state is
  the record \<open>world\<close>; what they decide on their own is the record \<open>host\<close>: whether a
  tool call fails (and with which message), and how timestamps are parsed and printed.
  Execution is sequential: nothing else touches the world between two steps.
\<close>

datatype js_error = Error string | RangeError string | TypeError string

fun error_message :: "js_error \<Rightarrow> string" where
  "error_message (Error m) = m"
| "error_message (RangeError m) = m"
| "error_message (TypeError m) = m"

record contribution =
  c_type :: string
  c_timestamp :: string
  c_repository :: "string option"
  c_projectId :: "string option"
  c_target :: "string option"
  c_text :: "string option"
  c_url :: "string option"

record formatter_options =
  opt_withLinks :: bool
  opt_anonymize :: "bool option"

record formatter_result =
  content :: string

record commit =
  commit_message :: string
  commit_author :: string
  commit_author_date :: "string option"
  commit_committer_date :: "string option"
  commit_committer_name :: "string option"
  commit_committer_email :: "string option"

datatype git_call =
    GitVersion
  | GitInit string
  | GitAddConfig string string string
  | GitRaw string "string list" "string option list"
  | GitLog string

datatype console_entry = ConsoleLog "string list" | ConsoleWarn "string list"

record world =
  env :: "string \<rightharpoonup> string"
  cwd :: string
  paths :: "string set"
  history :: "string \<Rightarrow> commit list"
  config :: "string \<Rightarrow> (string \<times> string) list"
  git_calls :: "git_call list"
  console :: "console_entry list"
  arrays :: "contribution list list"

text \<open>
  \<open>env\<close> is \<^verbatim>\<open>process.env\<close>; \<open>paths\<close> the directories that exist; \<open>history d\<close> and
  \<open>config d\<close> the commits and the configuration of the repository whose control directory is
  \<open>d/.git\<close>; \<open>git_calls\<close> every invocation of the tool so far, a commit invocation with the four
  ambient variables the tool reads; \<open>console\<close> the argument lists of \<^verbatim>\<open>console.log\<close> and
  \<^verbatim>\<open>console.warn\<close>; \<open>arrays\<close> the store of contribution arrays, an array reference being an
  index into it.
\<close>

record host =
  version_fails :: "world \<Rightarrow> string option"
  init_fails :: "string \<Rightarrow> world \<Rightarrow> string option"
  addConfig_fails :: "string \<Rightarrow> world \<Rightarrow> string option"
  raw_fails :: "string \<Rightarrow> string list \<Rightarrow> world \<Rightarrow> string option"
  log_fails :: "string \<Rightarrow> world \<Rightarrow> string option"
  dayjs_valueOf :: "string \<Rightarrow> int option"
  Date_parse :: "string \<Rightarrow> int option"
  toISOString :: "int \<Rightarrow> string"
  engine_order :: "contribution list \<Rightarrow> contribution list"

text \<open>
  \<open>dayjs_valueOf h s\<close> is \<^verbatim>\<open>dayjs(s).valueOf()\<close> and \<open>Date_parse h s\<close> is \<^verbatim>\<open>new Date(s)\<close>,
  in milliseconds since the epoch; \<^term>\<open>None\<close> is \<^verbatim>\<open>NaN\<close> and the invalid date.
  \<open>engine_order h xs\<close> is the order in which the engine's \<^verbatim>\<open>Array.prototype.sort\<close> leaves the
  array \<open>xs\<close> when the comparator of \<open>format\<close> is not consistent on it, which the language
  leaves to the implementation.
\<close>

definition path_join :: "string \<Rightarrow> string \<Rightarrow> string" where
  \<comment> \<open>\<^verbatim>\<open>path.join\<close> of a normalised directory and a plain name.\<close>
  "path_join dir name = dir @ ''/'' @ name"

definition git_env_names :: "string list" where
  "git_env_names =
     [''GIT_AUTHOR_DATE'', ''GIT_COMMITTER_DATE'', ''GIT_COMMITTER_NAME'', ''GIT_COMMITTER_EMAIL'']"

definition record_call :: "git_call \<Rightarrow> world \<Rightarrow> world" where
  "record_call c w = w\<lparr>git_calls := git_calls w @ [c]\<rparr>"

definition git_version :: "host \<Rightarrow> world \<Rightarrow> (js_error + unit) \<times> world" where
  "git_version h w =
     (case version_fails h w of
        Some e \<Rightarrow> (Inl (Error e), record_call GitVersion w)
      | None \<Rightarrow> (Inr (), record_call GitVersion w))"

definition git_init :: "host \<Rightarrow> string \<Rightarrow> world \<Rightarrow> (js_error + unit) \<times> world" where
  \<comment> \<open>\<^verbatim>\<open>git init\<close> in \<open>dir\<close>: a fresh control directory with no commits and no configuration;
      an existing one is left as it is.\<close>
  "git_init h dir w =
     (let w1 = record_call (GitInit dir) w
      in case init_fails h dir w of
           Some e \<Rightarrow> (Inl (Error e), w1)
         | None \<Rightarrow>
             (Inr (),
              if path_join dir ''.git'' \<in> paths w1 then w1
              else w1\<lparr>paths := insert (path_join dir ''.git'') (paths w1),
                      history := (history w1)(dir := []),
                      config := (config w1)(dir := [])\<rparr>))"

definition git_addConfig ::
  "host \<Rightarrow> string \<Rightarrow> string \<Rightarrow> string \<Rightarrow> world \<Rightarrow> (js_error + unit) \<times> world" where
  "git_addConfig h dir key val w =
     (let w1 = record_call (GitAddConfig dir key val) w
      in case addConfig_fails h dir w of
           Some e \<Rightarrow> (Inl (Error e), w1)
         | None \<Rightarrow> (Inr (), w1\<lparr>config := (config w1)(dir := config w1 dir @ [(key, val)])\<rparr>))"

definition git_raw ::
  "host \<Rightarrow> string \<Rightarrow> string list \<Rightarrow> world \<Rightarrow> (js_error + unit) \<times> world" where
  \<comment> \<open>\<^verbatim>\<open>git commit --allow-empty --message m --author a\<close>: when the tool succeeds, one commit
      more, with the dates and the committer taken from the environment.\<close>
  "git_raw h dir args w =
     (let w1 = record_call (GitRaw dir args (map (env w) git_env_names)) w
      in case raw_fails h dir args w of
           Some e \<Rightarrow> (Inl (Error e), w1)
         | None \<Rightarrow>
             (Inr (),
              if length args = 6 \<and> args ! 0 = ''commit'' \<and> args ! 1 = ''--allow-empty'' \<and>
                 args ! 2 = ''--message'' \<and> args ! 4 = ''--author''
              then w1\<lparr>history := (history w1)(dir := history w1 dir @
                     [\<lparr>commit_message = args ! 3, commit_author = args ! 5,
                       commit_author_date = env w ''GIT_AUTHOR_DATE'',
                       commit_committer_date = env w ''GIT_COMMITTER_DATE'',
                       commit_committer_name = env w ''GIT_COMMITTER_NAME'',
                       commit_committer_email = env w ''GIT_COMMITTER_EMAIL''\<rparr>])\<rparr>
              else w1))"

definition git_log :: "host \<Rightarrow> string \<Rightarrow> world \<Rightarrow> (js_error + nat) \<times> world" where
  \<comment> \<open>\<^verbatim>\<open>git.log()\<close>: its \<^verbatim>\<open>total\<close>.\<close>
  "git_log h dir w =
     (case log_fails h dir w of
        Some e \<Rightarrow> (Inl (Error e), record_call (GitLog dir) w)
      | None \<Rightarrow> (Inr (length (history w dir)), record_call (GitLog dir) w))"

section \<open>The repository manager (\<^verbatim>\<open>src/lib/git/repositoryManager.ts\<close>)\<close>

record commit_options =
  co_message :: string
  co_authorName :: string
  co_authorEmail :: string
  co_date :: "int option"

record manager =
  repositoryPath :: string

definition RepositoryManager_new :: "string \<Rightarrow> world \<Rightarrow> manager \<times> world" where
  \<comment> \<open>The constructor.\<close>
  "RepositoryManager_new path w =
     (\<lparr>repositoryPath = path\<rparr>,
      if path \<notin> paths w then w\<lparr>paths := insert path (paths w)\<rparr> else w)"

definition initializeRepository :: "host \<Rightarrow> manager \<Rightarrow> world \<Rightarrow> (js_error + bool) \<times> world" where
  "initializeRepository h this w =
     (let gitDir = path_join (repositoryPath this) ''.git'';
          isRepo = (gitDir \<in> paths w)
      in if isRepo then (Inr False, w)
         else
           (case git_init h (repositoryPath this) w of
              (Inl e, w1) \<Rightarrow> (Inl e, w1)
            | (Inr _, w1) \<Rightarrow>
                (case git_addConfig h (repositoryPath this) ''commit.gpgsign'' ''false'' w1 of
                   (Inl e, w2) \<Rightarrow> (Inl e, w2)
                 | (Inr _, w2) \<Rightarrow> (Inr True, w2))))"

fun restoreEnvironmentVariables :: "(string \<times> string option) list \<Rightarrow> world \<Rightarrow> world" where
  "restoreEnvironmentVariables [] w = w"
| "restoreEnvironmentVariables ((key, val) # original) w =
     restoreEnvironmentVariables original
       (case val of
          Some v \<Rightarrow> w\<lparr>env := (env w)(key \<mapsto> v)\<rparr>
        | None \<Rightarrow> w\<lparr>env := (env w)(key := None)\<rparr>)"

definition createCommit ::
  "host \<Rightarrow> manager \<Rightarrow> commit_options \<Rightarrow> world \<Rightarrow> (js_error + unit) \<times> world" where
  \<comment> \<open>\<^verbatim>\<open>date.toISOString()\<close> throws a RangeError on an invalid date, before anything is saved
      or set; from then on the \<^verbatim>\<open>finally\<close> block runs on both exits.\<close>
  "createCommit h this options w =
     (let authorString = co_authorName options @ '' <'' @ co_authorEmail options @ ''>''
      in case co_date options of
           None \<Rightarrow> (Inl (RangeError ''Invalid time value''), w)
         | Some d \<Rightarrow>
             (let dateString = toISOString h d;
                  originalEnv = map (\<lambda>key. (key, env w key)) git_env_names;
                  w1 = w\<lparr>env := (env w)(''GIT_AUTHOR_DATE'' \<mapsto> dateString,
                                          ''GIT_COMMITTER_DATE'' \<mapsto> dateString,
                                          ''GIT_COMMITTER_NAME'' \<mapsto> co_authorName options,
                                          ''GIT_COMMITTER_EMAIL'' \<mapsto> co_authorEmail options)\<rparr>
              in case git_raw h (repositoryPath this)
                        [''commit'', ''--allow-empty'', ''--message'', co_message options,
                         ''--author'', authorString] w1 of
                   (r, w2) \<Rightarrow> (r, restoreEnvironmentVariables originalEnv w2)))"

definition getCommitCount :: "host \<Rightarrow> manager \<Rightarrow> world \<Rightarrow> nat \<times> world" where
  "getCommitCount h this w =
     (case git_log h (repositoryPath this) w of
        (Inr n, w1) \<Rightarrow> (n, w1)
      | (Inl e, w1) \<Rightarrow> (0, w1))"

definition isGitAvailable :: "host \<Rightarrow> world \<Rightarrow> bool \<times> world" where
  "isGitAvailable h w =
     (case git_version h w of
        (Inr _, w1) \<Rightarrow> (True, w1)
      | (Inl e, w1) \<Rightarrow> (False, w1))"

definition getRepositoryPath :: "manager \<Rightarrow> string" where
  "getRepositoryPath this = repositoryPath this"

section \<open>The git formatter (\<^verbatim>\<open>src/formatters/git.ts\<close>)\<close>

definition defaultAuthorName :: string where
  "defaultAuthorName = ''Git Activity Tracer''"

definition defaultAuthorEmail :: string where
  "defaultAuthorEmail = ''noreply@example.com''"

definition outputDirectory :: string where
  "outputDirectory = ''git-contributions-export''"

definition digit_char :: "nat \<Rightarrow> char" where
  "digit_char d = ''0123456789'' ! d"

fun decimal :: "nat \<Rightarrow> string" where
  \<comment> \<open>A count in a template literal: its decimal digits.\<close>
  "decimal n = (if 10 \<le> n then decimal (n div 10) @ [digit_char (n mod 10)] else [digit_char n])"

declare decimal.simps [simp del]

definition string_of_int :: "int \<Rightarrow> string" where
  "string_of_int i = (if 0 \<le> i then decimal (nat i) else ''-'' @ decimal (nat (- i)))"

subsection \<open>\<^verbatim>\<open>buildCommitMessage\<close>\<close>

definition buildCommitMessage :: "contribution \<Rightarrow> bool \<Rightarrow> string" where
  "buildCommitMessage contribution anonymize =
     (let parts = [];
          parts = parts @ [''['' @ c_type contribution @ '']''];
          parts =
            (if truthy (c_repository contribution)
             then parts @ [if anonymize then anonymizeRepository (c_repository contribution)
                           else the (c_repository contribution)]
             else parts);
          parts =
            (if truthy (c_target contribution)
             then parts @ [''('' @ the (c_target contribution) @ '')'']
             else parts);
          parts =
            (if truthy (c_projectId contribution)
             then parts @ [''{'' @ the (c_projectId contribution) @ ''}'']
             else parts);
          parts =
            (if truthy (c_text contribution)
             then parts @ [if anonymize then anonymizeMessage (c_text contribution)
                           else the (c_text contribution)]
             else parts)
      in join_str '': '' parts)"

text \<open>The assembly as the specification words it: five optional fields, the absent ones dropped.\<close>

definition present :: "string option \<Rightarrow> string option" where
  "present v = (if truthy v then v else None)"

definition header_fields :: "contribution \<Rightarrow> bool \<Rightarrow> string option list" where
  "header_fields c anon =
     [Some (''['' @ c_type c @ '']''),
      map_option (\<lambda>r. if anon then anonymizeRepository (Some r) else r) (present (c_repository c)),
      map_option (\<lambda>t. ''('' @ t @ '')'') (present (c_target c)),
      map_option (\<lambda>p. ''{'' @ p @ ''}'') (present (c_projectId c))]"

definition text_field :: "contribution \<Rightarrow> bool \<Rightarrow> string option" where
  "text_field c anon =
     map_option (\<lambda>t. if anon then anonymizeMessage (Some t) else t) (present (c_text c))"

definition message_fields :: "contribution \<Rightarrow> bool \<Rightarrow> string option list" where
  "message_fields c anon = header_fields c anon @ [text_field c anon]"

fun drop_absent :: "string option list \<Rightarrow> string list" where
  "drop_absent [] = []"
| "drop_absent (None # vs) = drop_absent vs"
| "drop_absent (Some s # vs) = s # drop_absent vs"

definition spec_commit_message :: "contribution \<Rightarrow> bool \<Rightarrow> string" where
  "spec_commit_message c anon = join_str '': '' (drop_absent (message_fields c anon))"

subsection \<open>The sort\<close>

definition timestamp_compare :: "host \<Rightarrow> contribution \<Rightarrow> contribution \<Rightarrow> int option" where
  \<comment> \<open>\<^verbatim>\<open>dayjs(a.timestamp).valueOf() - dayjs(b.timestamp).valueOf()\<close>; \<^term>\<open>None\<close> is \<^verbatim>\<open>NaN\<close>.\<close>
  "timestamp_compare h a b =
     (case dayjs_valueOf h (c_timestamp a) of
        None \<Rightarrow> None
      | Some x \<Rightarrow>
          (case dayjs_valueOf h (c_timestamp b) of
             None \<Rightarrow> None
           | Some y \<Rightarrow> Some (x - y)))"

definition not_after :: "int option \<Rightarrow> bool" where
  \<comment> \<open>The comparator says "not after": a result that is negative or zero; the sort reads
      \<^verbatim>\<open>NaN\<close> as \<^verbatim>\<open>+0\<close>.\<close>
  "not_after v = (case v of None \<Rightarrow> True | Some d \<Rightarrow> d \<le> 0)"

fun insert_sorted :: "('a \<Rightarrow> 'a \<Rightarrow> int option) \<Rightarrow> 'a \<Rightarrow> 'a list \<Rightarrow> 'a list" where
  "insert_sorted cmp x [] = [x]"
| "insert_sorted cmp x (y # ys) =
     (if not_after (cmp x y) then x # y # ys else y # insert_sorted cmp x ys)"

definition array_sort :: "('a \<Rightarrow> 'a \<Rightarrow> int option) \<Rightarrow> 'a list \<Rightarrow> 'a list" where
  \<comment> \<open>\<^verbatim>\<open>Array.prototype.sort\<close> with a comparator that is consistent on the array.  The
      language requires the sort to be stable, and with a consistent comparator that fixes the
      result, which insertion from the right computes.  It is not the sort of any engine where
      the comparator is inconsistent, and is used only under the guard of
      \<open>sort_by_timestamp\<close>.\<close>
  "array_sort cmp xs = foldr (insert_sorted cmp) xs []"

definition sort_by_timestamp :: "host \<Rightarrow> contribution list \<Rightarrow> contribution list" where
  \<comment> \<open>\<^verbatim>\<open>.sort((a, b) => dayjs(a.timestamp).valueOf() - dayjs(b.timestamp).valueOf())\<close>.  Where
      every timestamp of the array parses, the comparator is the difference of two numbers and
      consistent.  With a \<^verbatim>\<open>NaN\<close> among the keys it is not, and the order is the engine's.\<close>
  "sort_by_timestamp h xs =
     (if \<forall>x \<in> set xs. dayjs_valueOf h (c_timestamp x) \<noteq> None
      then array_sort (timestamp_compare h) xs
      else engine_order h xs)"

definition sorted_copy :: "host \<Rightarrow> nat \<Rightarrow> world \<Rightarrow> nat \<times> world" where
  \<comment> \<open>\<^verbatim>\<open>[...contributions].sort(...)\<close>: a new array holding the same elements, sorted in place.\<close>
  "sorted_copy h contributions w =
     (let copy = length (arrays w);
          w1 = w\<lparr>arrays := arrays w @ [arrays w ! contributions]\<rparr>
      in (copy, w1\<lparr>arrays := (arrays w1)[copy := sort_by_timestamp h (arrays w1 ! copy)]\<rparr>))"

subsection \<open>The commit loop\<close>

definition commit_request :: "host \<Rightarrow> string \<Rightarrow> string \<Rightarrow> bool \<Rightarrow> contribution \<Rightarrow> commit_options" where
  "commit_request h authorName authorEmail anonymize contribution =
     \<lparr>co_message = buildCommitMessage contribution anonymize,
      co_authorName = authorName,
      co_authorEmail = authorEmail,
      co_date = Date_parse h (c_timestamp contribution)\<rparr>"

definition console_log :: "string list \<Rightarrow> world \<Rightarrow> world" where
  "console_log args w = w\<lparr>console := console w @ [ConsoleLog args]\<rparr>"

definition console_warn :: "string list \<Rightarrow> world \<Rightarrow> world" where
  "console_warn args w = w\<lparr>console := console w @ [ConsoleWarn args]\<rparr>"

definition failure_warning :: "contribution \<Rightarrow> js_error \<Rightarrow> string list" where
  "failure_warning contribution e =
     [''Warning: Failed to create commit for '' @ c_type contribution @ '' at '' @
        c_timestamp contribution @ '':'',
      error_message e]"

definition progress_line :: "nat \<Rightarrow> nat \<Rightarrow> string list" where
  "progress_line commitCount len =
     [''  Progress: '' @ decimal commitCount @ ''/'' @ decimal len @
        '' commits created...'']"

definition commit_step ::
  "host \<Rightarrow> manager \<Rightarrow> string \<Rightarrow> string \<Rightarrow> bool \<Rightarrow> nat \<Rightarrow> contribution \<Rightarrow> nat \<times> world \<Rightarrow> nat \<times> world"
  where
  \<comment> \<open>One pass of the loop body, on the counter and the world.\<close>
  "commit_step h repoManager authorName authorEmail anonymize len contribution st =
     (case createCommit h repoManager
             (commit_request h authorName authorEmail anonymize contribution) (snd st) of
        (Inr _, w1) \<Rightarrow>
          (let commitCount = fst st + 1
           in (commitCount,
               if commitCount mod 100 = 0 then console_log (progress_line commitCount len) w1
               else w1))
      | (Inl e, w1) \<Rightarrow> (fst st, console_warn (failure_warning contribution e) w1))"

fun commit_loop ::
  "host \<Rightarrow> manager \<Rightarrow> string \<Rightarrow> string \<Rightarrow> bool \<Rightarrow> nat \<Rightarrow> contribution list \<Rightarrow> nat \<times> world
     \<Rightarrow> nat \<times> world" where
  "commit_loop h repoManager authorName authorEmail anonymize len [] st = st"
| "commit_loop h repoManager authorName authorEmail anonymize len (c # cs) st =
     commit_loop h repoManager authorName authorEmail anonymize len cs
       (commit_step h repoManager authorName authorEmail anonymize len c st)"

fun attempt_results ::
  "host \<Rightarrow> manager \<Rightarrow> string \<Rightarrow> string \<Rightarrow> bool \<Rightarrow> nat \<Rightarrow> contribution list \<Rightarrow> nat \<times> world
     \<Rightarrow> (js_error + unit) list" where
  \<comment> \<open>What each \<^verbatim>\<open>createCommit\<close> of the loop returns or throws, in the order of the loop.\<close>
  "attempt_results h repoManager authorName authorEmail anonymize len [] st = []"
| "attempt_results h repoManager authorName authorEmail anonymize len (c # cs) st =
     fst (createCommit h repoManager (commit_request h authorName authorEmail anonymize c) (snd st))
       # attempt_results h repoManager authorName authorEmail anonymize len cs
           (commit_step h repoManager authorName authorEmail anonymize len c st)"

subsection \<open>\<^verbatim>\<open>format\<close>\<close>

definition env_or :: "world \<Rightarrow> string \<Rightarrow> string \<Rightarrow> string" where
  \<comment> \<open>\<^verbatim>\<open>process.env.NAME || fallback\<close>\<close>
  "env_or w name fallback = (if truthy (env w name) then the (env w name) else fallback)"

definition anonymize_flag :: "formatter_options \<Rightarrow> bool" where
  \<comment> \<open>\<^verbatim>\<open>options.anonymize ?? false\<close>, and the truthiness of \<^verbatim>\<open>options.anonymize\<close>.\<close>
  "anonymize_flag options = (opt_anonymize options = Some True)"

definition open_repository :: "host \<Rightarrow> world \<Rightarrow> (js_error + manager \<times> nat) \<times> world" where
  \<comment> \<open>The repository path, the manager, the initialisation and the baseline count.\<close>
  "open_repository h w =
     (case RepositoryManager_new (path_join (cwd w) outputDirectory) w of
        (repoManager, w1) \<Rightarrow>
          (case initializeRepository h repoManager w1 of
             (Inl e, w2) \<Rightarrow> (Inl e, w2)
           | (Inr isNew, w2) \<Rightarrow>
               (case (if isNew then (0, w2) else getCommitCount h repoManager w2) of
                  (initialCount, w3) \<Rightarrow> (Inr (repoManager, initialCount), w3))))"

definition create_commits ::
  "host \<Rightarrow> manager \<Rightarrow> string \<Rightarrow> string \<Rightarrow> bool \<Rightarrow> nat \<Rightarrow> world \<Rightarrow> nat \<times> world" where
  \<comment> \<open>The sorted copy and the loop over it.\<close>
  "create_commits h repoManager authorName authorEmail anonymize contributions w =
     (case sorted_copy h contributions w of
        (sorted', w1) \<Rightarrow>
          commit_loop h repoManager authorName authorEmail anonymize (length (arrays w1 ! sorted'))
            (arrays w1 ! sorted') (0, w1))"

definition push_instructions :: "string list" where
  "push_instructions =
     [[CHR 0x0A] @ ''To push to GitHub:'',
      ''  cd '' @ outputDirectory,
      ''  git remote add origin git@github.com:username/activity-showcase.git'',
      ''  git branch -M main'',
      ''  git push -u origin main --force'']"

definition success_banner :: string where
  \<comment> \<open>The check mark U+2705 lies beyond U+00FF; it stands here as its three UTF-8 bytes.\<close>
  "success_banner =
     [CHR 0x0A, CHR 0xE2, CHR 0x9C, CHR 0x85] @ '' Git export completed successfully!'' @ [CHR 0x0A]"

definition summary_lines ::
  "string \<Rightarrow> nat \<Rightarrow> int \<Rightarrow> nat \<Rightarrow> string \<Rightarrow> string \<Rightarrow> formatter_options \<Rightarrow> string list" where
  "summary_lines repositoryPath' totalCommits newCommits len authorName authorEmail options =
     (let lines = [];
          lines = lines @ [success_banner];
          lines = lines @ [''Repository location: '' @ repositoryPath'];
          lines = lines @ [''Total commits: '' @ decimal totalCommits];
          lines = lines @ [''New commits created: '' @ string_of_int newCommits];
          lines = lines @ [''Contributions exported: '' @ decimal len];
          lines = lines @ [''Author: '' @ authorName @ '' <'' @ authorEmail @ ''>''];
          lines = (if anonymize_flag options then lines @ [''Anonymization: enabled''] else lines)
      in lines @ push_instructions)"

definition format ::
  "host \<Rightarrow> nat \<Rightarrow> formatter_options \<Rightarrow> world \<Rightarrow> (js_error + formatter_result) \<times> world" where
  \<comment> \<open>\<open>contributions\<close> is the reference of the caller's array.\<close>
  "format h contributions options w =
     (case isGitAvailable h w of
        (gitAvailable, w0) \<Rightarrow>
          if \<not> gitAvailable
          then (Inl (Error (''Git is not installed or not available in PATH. '' @
                            ''Please install git to use the git export format.'')), w0)
          else if \<not> contributions < length (arrays w0)
          then (Inl (TypeError ''Cannot read properties of undefined (reading 'length')''), w0)
          else if length (arrays w0 ! contributions) = 0
          then (Inr \<lparr>content = ''No contributions to export. The repository was not created '' @
                                ''because there are no contributions in this range.''\<rparr>, w0)
          else
            (let authorName = env_or w0 ''GIT_AUTHOR_NAME'' defaultAuthorName;
                 authorEmail = env_or w0 ''GIT_AUTHOR_EMAIL'' defaultAuthorEmail
             in case open_repository h w0 of
                  (Inl e, w3) \<Rightarrow> (Inl e, w3)
                | (Inr (repoManager, initialCount), w3) \<Rightarrow>
                    (case create_commits h repoManager authorName authorEmail
                            (anonymize_flag options) contributions w3 of
                       (commitCount, w6) \<Rightarrow>
                         (case getCommitCount h repoManager w6 of
                            (totalCommits, w7) \<Rightarrow>
                              (let newCommits = int totalCommits - int initialCount;
                                   lines = summary_lines (getRepositoryPath repoManager) totalCommits
                                             newCommits (length (arrays w7 ! contributions))
                                             authorName authorEmail options
                               in (Inr \<lparr>content = join_str [CHR 0x0A] lines\<rparr>, w7))))))"

section \<open>What a call leaves behind\<close>

text \<open>Notions of the statements below, read off the world and the model above.\<close>

definition author_string :: "commit_options \<Rightarrow> string" where
  "author_string options = co_authorName options @ '' <'' @ co_authorEmail options @ ''>''"

definition commit_call :: "host \<Rightarrow> manager \<Rightarrow> commit_options \<Rightarrow> git_call" where
  \<comment> \<open>The invocation \<open>createCommit\<close> makes for a valid date, with the ambient variables the
      tool finds.\<close>
  "commit_call h this options =
     GitRaw (repositoryPath this)
       [''commit'', ''--allow-empty'', ''--message'', co_message options, ''--author'',
        author_string options]
       [Some (toISOString h (the (co_date options))), Some (toISOString h (the (co_date options))),
        Some (co_authorName options), Some (co_authorEmail options)]"

definition made_commit :: "host \<Rightarrow> commit_options \<Rightarrow> commit" where
  \<comment> \<open>The commit a successful \<open>createCommit\<close> adds.\<close>
  "made_commit h options =
     \<lparr>commit_message = co_message options,
      commit_author = author_string options,
      commit_author_date = Some (toISOString h (the (co_date options))),
      commit_committer_date = Some (toISOString h (the (co_date options))),
      commit_committer_name = Some (co_authorName options),
      commit_committer_email = Some (co_authorEmail options)\<rparr>"

fun is_commit_call :: "git_call \<Rightarrow> bool" where
  "is_commit_call (GitRaw dir args vars) = True"
| "is_commit_call _ = False"

definition commit_calls :: "world \<Rightarrow> git_call list" where
  "commit_calls w = filter is_commit_call (git_calls w)"

fun is_warning :: "console_entry \<Rightarrow> bool" where
  "is_warning (ConsoleWarn args) = True"
| "is_warning (ConsoleLog args) = False"

definition warnings :: "world \<Rightarrow> console_entry list" where
  "warnings w = filter is_warning (console w)"

definition timestamp_key :: "host \<Rightarrow> contribution \<Rightarrow> int" where
  "timestamp_key h c = the (dayjs_valueOf h (c_timestamp c))"

definition export_path :: "world \<Rightarrow> string" where
  "export_path w = path_join (cwd w) outputDirectory"

definition export_manager :: "world \<Rightarrow> manager" where
  "export_manager w = \<lparr>repositoryPath = export_path w\<rparr>"

definition baseline_history :: "world \<Rightarrow> commit list" where
  \<comment> \<open>The commits of the export repository as a call of \<open>format\<close> finds it: those of an
      existing repository, none where there is no repository yet.\<close>
  "baseline_history w =
     (if path_join (export_path w) ''.git'' \<in> paths w then history w (export_path w) else [])"

definition format_request :: "host \<Rightarrow> formatter_options \<Rightarrow> world \<Rightarrow> contribution \<Rightarrow> commit_options" where
  \<comment> \<open>The commit options \<open>format\<close> builds for a contribution.\<close>
  "format_request h options w c =
     commit_request h (env_or w ''GIT_AUTHOR_NAME'' defaultAuthorName)
       (env_or w ''GIT_AUTHOR_EMAIL'' defaultAuthorEmail) (anonymize_flag options) c"

definition format_attempts ::
  "host \<Rightarrow> nat \<Rightarrow> formatter_options \<Rightarrow> world \<Rightarrow> (js_error + unit) list" where
  \<comment> \<open>What the \<open>createCommit\<close> calls of a call of \<open>format\<close> return or throw, in the order of the
      loop; empty when the call does not reach the loop.\<close>
  "format_attempts h contributions options w =
     (case isGitAvailable h w of
        (gitAvailable, w0) \<Rightarrow>
          if \<not> gitAvailable \<or> \<not> contributions < length (arrays w0) then []
          else if length (arrays w0 ! contributions) = 0 then []
          else
            (case open_repository h w0 of
               (Inl e, w3) \<Rightarrow> []
             | (Inr (repoManager, initialCount), w3) \<Rightarrow>
                 (case sorted_copy h contributions w3 of
                    (sorted', w4) \<Rightarrow>
                      attempt_results h repoManager
                        (env_or w0 ''GIT_AUTHOR_NAME'' defaultAuthorName)
                        (env_or w0 ''GIT_AUTHOR_EMAIL'' defaultAuthorEmail)
                        (anonymize_flag options) (length (arrays w4 ! sorted'))
                        (arrays w4 ! sorted') (0, w4))))"

definition format_counts :: "host \<Rightarrow> nat \<Rightarrow> formatter_options \<Rightarrow> world \<Rightarrow> nat \<times> nat" where
  \<comment> \<open>The baseline count and the re-queried total of a call of \<open>format\<close> that reaches the
      summary.\<close>
  "format_counts h contributions options w =
     (case isGitAvailable h w of
        (gitAvailable, w0) \<Rightarrow>
          (case open_repository h w0 of
             (Inl e, w3) \<Rightarrow> (0, 0)
           | (Inr (repoManager, initialCount), w3) \<Rightarrow>
               (case create_commits h repoManager
                       (env_or w0 ''GIT_AUTHOR_NAME'' defaultAuthorName)
                       (env_or w0 ''GIT_AUTHOR_EMAIL'' defaultAuthorEmail)
                       (anonymize_flag options) contributions w3 of
                  (commitCount, w6) \<Rightarrow>
                    (initialCount, fst (getCommitCount h repoManager w6)))))"

definition successes :: "contribution list \<Rightarrow> (js_error + unit) list \<Rightarrow> contribution list" where
  \<comment> \<open>The contributions whose attempt returned.\<close>
  "successes cs rs = map fst (filter (\<lambda>cr. \<not> isl (snd cr)) (zip cs rs))"

definition failures ::
  "contribution list \<Rightarrow> (js_error + unit) list \<Rightarrow> (contribution \<times> js_error) list" where
  \<comment> \<open>The contributions whose attempt threw, each with what was thrown.\<close>
  "failures cs rs = map (\<lambda>cr. (fst cr, projl (snd cr))) (filter (\<lambda>cr. isl (snd cr)) (zip cs rs))"

section \<open>Example inputs\<close>

subsection \<open>An engine\<close>

text \<open>
  The order in which the V8 engine of Node.js leaves an array of fewer than 64 elements, where
  its sort is one binary insertion sort: the run at the start of the array is counted and made
  ascending, and each later element is inserted at the place a binary search finds.  The
  comparator it is given has \<^verbatim>\<open>NaN\<close> already read as 0.
\<close>

fun run_tail :: "('a \<Rightarrow> 'a \<Rightarrow> int) \<Rightarrow> bool \<Rightarrow> 'a \<Rightarrow> 'a list \<Rightarrow> nat" where
  "run_tail cmp descending previous [] = 0"
| "run_tail cmp descending previous (x # xs) =
     (if (if descending then 0 \<le> cmp x previous else cmp x previous < 0) then 0
      else Suc (run_tail cmp descending x xs))"

definition count_and_make_run :: "('a \<Rightarrow> 'a \<Rightarrow> int) \<Rightarrow> 'a list \<Rightarrow> 'a list \<times> nat" where
  "count_and_make_run cmp xs =
     (case xs of
        high # low # rest \<Rightarrow>
          (let descending = cmp low high < 0;
               runLength = 2 + run_tail cmp descending low rest
           in (if descending then rev (take runLength xs) @ drop runLength xs else xs, runLength))
      | _ \<Rightarrow> (xs, length xs))"

function binary_search :: "('a \<Rightarrow> 'a \<Rightarrow> int) \<Rightarrow> 'a \<Rightarrow> 'a list \<Rightarrow> nat \<Rightarrow> nat \<Rightarrow> nat" where
  "binary_search cmp pivot xs left right =
     (if left < right
      then (let mid = left + (right - left) div 2
            in if cmp pivot (xs ! mid) < 0 then binary_search cmp pivot xs left mid
               else binary_search cmp pivot xs (mid + 1) right)
      else left)"
  by pat_completeness auto
termination
  by (relation "measure (\<lambda>(cmp, pivot, xs, left, right). right - left)") auto

declare binary_search.simps [simp del]

fun binary_insertion :: "('a \<Rightarrow> 'a \<Rightarrow> int) \<Rightarrow> 'a list \<Rightarrow> 'a list \<Rightarrow> 'a list" where
  "binary_insertion cmp placed [] = placed"
| "binary_insertion cmp placed (pivot # rest) =
     (let left = binary_search cmp pivot placed 0 (length placed)
      in binary_insertion cmp (take left placed @ [pivot] @ drop left placed) rest)"

definition short_array_sort :: "('a \<Rightarrow> 'a \<Rightarrow> int) \<Rightarrow> 'a list \<Rightarrow> 'a list" where
  "short_array_sort cmp xs =
     (if length xs < 2 then xs
      else case count_and_make_run cmp xs of
             (ys, runLength) \<Rightarrow> binary_insertion cmp (take runLength ys) (drop runLength ys))"

subsection \<open>Hosts, batches and worlds\<close>

definition example_instants :: "(string \<times> int) list" where
  "example_instants =
     [(''2026-01-01T10:00:00Z'', 1767261600000),
      (''2026-01-02T10:00:00Z'', 1767348000000),
      (''2026-01-03T10:00:00Z'', 1767434400000)]"

definition example_iso :: "int \<Rightarrow> string" where
  "example_iso t =
     (if t = 1767261600000 then ''2026-01-01T10:00:00.000Z''
      else if t = 1767348000000 then ''2026-01-02T10:00:00.000Z''
      else if t = 1767434400000 then ''2026-01-03T10:00:00.000Z''
      else [])"

definition example_compare :: "contribution \<Rightarrow> contribution \<Rightarrow> int" where
  \<comment> \<open>The comparator of \<open>format\<close> on the instants above, as the engine reads it.\<close>
  "example_compare a b =
     (case map_of example_instants (c_timestamp a) of
        None \<Rightarrow> 0
      | Some x \<Rightarrow>
          (case map_of example_instants (c_timestamp b) of
             None \<Rightarrow> 0
           | Some y \<Rightarrow> x - y))"

definition example_host :: host where
  \<comment> \<open>A tool that is installed and never fails, on the engine above.\<close>
  "example_host =
     \<lparr>version_fails = (\<lambda>w. None),
      init_fails = (\<lambda>dir w. None),
      addConfig_fails = (\<lambda>dir w. None),
      raw_fails = (\<lambda>dir args w. None),
      log_fails = (\<lambda>dir w. None),
      dayjs_valueOf = map_of example_instants,
      Date_parse = map_of example_instants,
      toISOString = example_iso,
      engine_order = short_array_sort example_compare\<rparr>"

definition failing_host :: host where
  \<comment> \<open>The same tool, failing on the commit whose message is \<^verbatim>\<open>[commit]: second\<close>.\<close>
  "failing_host =
     example_host\<lparr>raw_fails :=
       (\<lambda>dir args w. if args ! 3 = ''[commit]: second'' then Some ''simulated tool error''
                      else None)\<rparr>"

definition example_commit :: "string \<Rightarrow> string \<Rightarrow> contribution" where
  "example_commit ts txt =
     \<lparr>c_type = ''commit'', c_timestamp = ts, c_repository = None, c_projectId = None,
      c_target = None, c_text = Some txt, c_url = None\<rparr>"

definition example_contributions :: "contribution list" where
  "example_contributions =
     [example_commit ''2026-01-03T10:00:00Z'' ''third'',
      example_commit ''2026-01-01T10:00:00Z'' ''first'',
      example_commit ''2026-01-02T10:00:00Z'' ''second'']"

definition example_world :: world where
  \<comment> \<open>A working directory inside a repository of its own, with no export directory yet; the
      caller's array is array 0.\<close>
  "example_world =
     \<lparr>env = Map.empty,
      cwd = ''/work'',
      paths = {''/work'', ''/work/.git''},
      history = (\<lambda>dir. []),
      config = (\<lambda>dir. []),
      git_calls = [],
      console = [],
      arrays = [example_contributions]\<rparr>"

definition garbled_contributions :: "contribution list" where
  \<comment> \<open>A batch with a timestamp that is no date.\<close>
  "garbled_contributions =
     [example_commit ''2026-01-03T10:00:00Z'' ''third'',
      example_commit ''2026-01-01T10:00:00Z'' ''first'',
      example_commit ''garbage'' ''bad'',
      example_commit ''2026-01-02T10:00:00Z'' ''second'']"

definition garbled_world :: world where
  "garbled_world = example_world\<lparr>arrays := [garbled_contributions]\<rparr>"

definition example_options :: formatter_options where
  "example_options = \<lparr>opt_withLinks = False, opt_anonymize = Some False\<rparr>"

section \<open>Properties\<close>

subsection \<open>Evaluating the digest\<close>

lemma take_bit_32_word: "take_bit 32 (x :: u32) = x"
  by (simp add: take_bit_word_eq_self)

lemma rotr_eval: "rotr n x = drop_bit n x OR take_bit 32 (push_bit (32 - n) x)"
  by (simp add: rotr_def take_bit_32_word)

lemma Ch_eval: "Ch x y z = (x AND y) XOR (take_bit 32 (NOT x) AND z)"
  by (simp add: Ch_def take_bit_32_word)

lemma next_window_eval:
  "next_window w = tl w @ [take_bit 32 (ssig1 (w ! 14) + w ! 9 + ssig0 (w ! 1) + w ! 0)]"
  by (simp add: next_window_def take_bit_32_word)

lemma sha256_round_eval:
  "sha256_round (a, b, c, d, e, f, g, h) (k, w) =
     round_out a b c d e f g (take_bit 32 (h + bsig1 e + Ch e f g + k + w))
       (take_bit 32 (bsig0 a + Maj a b c))"
  by (simp add: sha256_round_def round_out_def take_bit_32_word Let_def)

lemma sha_add_eval:
  "sha_add (a, b, c, d, e, f, g, h) (a', b', c', d', e', f', g', h') =
     (take_bit 32 (a + a'), take_bit 32 (b + b'), take_bit 32 (c + c'), take_bit 32 (d + d'),
      take_bit 32 (e + e'), take_bit 32 (f + f'), take_bit 32 (g + g'), take_bit 32 (h + h'))"
  by (simp add: sha_add_def take_bit_32_word)

lemma replicate_eval: "replicate n x = (if n = 0 then [] else x # replicate (n - 1) x)"
  by (cases n) simp_all

lemmas sha_eval = sha256_hex_def utf8_def utf8_char_def sha256_pad_def be64_def sha256_block_def
  sha256_K_def sha256_H0_def next_window_eval sha256_round_eval round_out_def sha_add_eval hex32_def
  hex_digit_def lower_hex_def rotr_eval Ch_eval Maj_def bsig0_def bsig1_def ssig0_def ssig1_def replicate_eval

lemma sha256_hex_empty_string:
  "sha256_hex '''' = ''e3b0c44298fc1c149afbf4c8996fb92427ae41e4649b934ca495991b7852b855''"
  by (simp add: sha_eval)

lemma sha256_hex_empty_word:
  "sha256_hex ''empty'' = ''2e1cfa82b035c26cbbbdae632cea070514eb8b773f616aaeaf668e2f0be8f10d''"
  by (simp add: sha_eval)

subsection \<open>The shape of a hash\<close>

lemma hex_digit_range: "n < 16 \<Longrightarrow> hex_digit n \<in> set lower_hex"
  unfolding hex_digit_def by (rule nth_mem) (simp add: lower_hex_def)

lemma nibble_bound: "unat ((x :: u32) AND 15) < 16"
proof -
  have "unat (x AND 15) \<le> unat (15 :: u32)"
    by (rule word_and_le1 [THEN word_le_nat_alt [THEN iffD1]])
  then show ?thesis by simp
qed

lemma hex32_length [simp]: "length (hex32 w) = 8"
  by (simp add: hex32_def)

lemma hex32_chars: "set (hex32 w) \<subseteq> set lower_hex"
  unfolding hex32_def using hex_digit_range [OF nibble_bound] by auto

lemma sha256_hex_shape: "length (sha256_hex s) = 64 \<and> set (sha256_hex s) \<subseteq> set lower_hex"
proof -
  obtain a b c d e f g h where
    st: "sha256_blocks sha256_H0 (be_words (sha256_pad (utf8 s))) = (a, b, c, d, e, f, g, h)"
    by (metis surj_pair)
  have eq: "sha256_hex s = concat (map hex32 [a, b, c, d, e, f, g, h])"
    by (simp add: sha256_hex_def st)
  have "length (sha256_hex s) = 64"
    unfolding eq by simp
  moreover have "set (sha256_hex s) \<subseteq> set lower_hex"
    unfolding eq using hex32_chars by auto
  ultimately show ?thesis by simp
qed

lemma createConsistentHash_hex8: "is_hex8 (createConsistentHash s 8)"
proof -
  have "length (take 8 (sha256_hex s)) = 8"
    using sha256_hex_shape [of s] by simp
  moreover have "set (take 8 (sha256_hex s)) \<subseteq> set lower_hex"
    using sha256_hex_shape [of s] set_take_subset [of 8 "sha256_hex s"] by blast
  ultimately show ?thesis
    by (simp add: is_hex8_def createConsistentHash_def)
qed


subsection \<open>The pattern matches exactly the prefixes of the grammar\<close>

lemma not_scope_char_paren: "\<not> is_scope_char (CHR '')'')"
  by (simp add: is_scope_char_def is_word_char_def)

lemma match_scope_hit:
  assumes "w \<noteq> []" and "list_all is_scope_char w"
  shows "match_scope (''('' @ w @ '')'' @ r) = Some (''('' @ w @ '')'')"
proof -
  have tw: "takeWhile is_scope_char (w @ CHR '')'' # r) = w"
    using assms(2) not_scope_char_paren by (simp add: list_all_iff)
  have dw: "dropWhile is_scope_char (w @ CHR '')'' # r) = CHR '')'' # r"
    using assms(2) not_scope_char_paren by (simp add: list_all_iff)
  have "match_scope (CHR ''('' # (w @ CHR '')'' # r)) = Some (CHR ''('' # w @ [CHR '')''])"
    unfolding match_scope_def list.case Let_def tw dw using assms(1) by simp
  then show ?thesis by simp
qed

lemma match_scope_colon: "match_scope (CHR '':'' # r) = None"
  by (simp add: match_scope_def)

lemma match_colon_space_hit:
  "match_colon_space (CHR '':'' # r) = Some (CHR '':'' # takeWhile is_space r)"
  by (simp add: match_colon_space_def)

lemma match_tail_hit:
  assumes "is_scope sc"
  shows "match_tail (sc @ '':'' @ r) = Some (sc @ '':'' @ takeWhile is_space r)"
proof (cases "sc = []")
  case True
  then show ?thesis by (simp add: match_tail_def match_scope_colon match_colon_space_hit)
next
  case False
  then obtain w where w: "w \<noteq> []" "list_all is_scope_char w" "sc = ''('' @ w @ '')''"
    using assms by (auto simp: is_scope_def)
  have "match_scope (sc @ '':'' @ r) = Some sc"
    using match_scope_hit [OF w(1,2), of "'':'' @ r"] w(3) by simp
  then show ?thesis by (simp add: match_tail_def match_colon_space_hit)
qed

lemma types_prefix_free:
  "\<forall>a \<in> set conventional_types. \<forall>b \<in> set conventional_types. prefix a b \<longrightarrow> a = b"
  by code_simp

lemma match_types_hit:
  assumes "k \<in> set ks"
    and "length k \<le> length s" and "map to_lower (take (length k) s) = k"
    and "match_tail (drop (length k) s) = Some t"
    and "\<forall>k' \<in> set ks. length k' \<le> length s \<and> map to_lower (take (length k') s) = k' \<longrightarrow> k' = k"
  shows "match_types ks s = Some (take (length k) s @ t)"
  using assms(1,5)
proof (induction ks)
  case Nil
  then show ?case by simp
next
  case (Cons a ks)
  show ?case
  proof (cases "a = k")
    case True
    then show ?thesis using assms(2,3,4) by simp
  next
    case False
    then have miss: "\<not> (length a \<le> length s \<and> map to_lower (take (length a) s) = a)"
      using Cons.prems(2) by auto
    have "k \<in> set ks" using Cons.prems(1) False by auto
    moreover have "\<forall>k' \<in> set ks.
        length k' \<le> length s \<and> map to_lower (take (length k') s) = k' \<longrightarrow> k' = k"
      using Cons.prems(2) by auto
    ultimately have "match_types ks s = Some (take (length k) s @ t)"
      by (rule Cons.IH)
    then show ?thesis using miss by auto
  qed
qed

lemma same_type:
  assumes "k \<in> set conventional_types" "k' \<in> set conventional_types"
    and "length k \<le> length s" "map to_lower (take (length k) s) = k"
    and "length k' \<le> length s" "map to_lower (take (length k') s) = k'"
  shows "k' = k"
proof -
  have k: "k = take (length k) (map to_lower s)" and k': "k' = take (length k') (map to_lower s)"
    using assms by (simp_all add: take_map)
  have "prefix k (map to_lower s)" "prefix k' (map to_lower s)"
    using k k' by (metis take_is_prefix)+
  then have "prefix k k' \<or> prefix k' k"
    using prefix_same_cases by blast
  then show ?thesis
    using types_prefix_free assms(1,2) by blast
qed

lemma pattern_hit:
  assumes "map to_lower k \<in> set conventional_types" and "is_scope sc"
  shows "conventionalPrefixPattern (k @ sc @ '':'' @ r) = Some (k @ sc @ '':'' @ takeWhile is_space r)"
proof -
  let ?s = "k @ sc @ '':'' @ r"
  let ?k = "map to_lower k"
  have len: "length ?k \<le> length ?s" by simp
  have low: "map to_lower (take (length ?k) ?s) = ?k" by simp
  have tl: "match_tail (drop (length ?k) ?s) = Some (sc @ '':'' @ takeWhile is_space r)"
    using match_tail_hit [OF assms(2)] by simp
  have uniq: "\<forall>k' \<in> set conventional_types.
      length k' \<le> length ?s \<and> map to_lower (take (length k') ?s) = k' \<longrightarrow> k' = ?k"
    using same_type [OF assms(1) _ len low] by blast
  show ?thesis
    unfolding conventionalPrefixPattern_def
    using match_types_hit [OF assms(1) len low tl uniq] by simp
qed

lemma match_colon_space_Some:
  assumes "match_colon_space s = Some t"
  shows "\<exists>r. s = '':'' @ r \<and> t = '':'' @ takeWhile is_space r"
  using assms by (auto simp: match_colon_space_def split: list.splits if_splits)

lemma match_scope_Some:
  assumes "match_scope s = Some sc"
  shows "\<exists>w r. w \<noteq> [] \<and> list_all is_scope_char w \<and> sc = ''('' @ w @ '')'' \<and> s = sc @ r"
proof -
  obtain c r where s: "s = c # r"
    using assms by (cases s) (auto simp: match_scope_def)
  let ?w = "takeWhile is_scope_char r"
  let ?r' = "dropWhile is_scope_char r"
  have cond: "c = CHR ''('' \<and> ?w \<noteq> [] \<and> ?r' \<noteq> [] \<and> hd ?r' = CHR '')''"
    and sc: "sc = c # ?w @ [CHR '')'']"
    using assms s by (auto simp: match_scope_def Let_def split: if_splits)
  have r': "?r' = CHR '')'' # tl ?r'"
    using cond by (cases ?r') auto
  have "r = ?w @ ?r'" by simp
  then have "s = sc @ tl ?r'"
    using s sc r' cond by (metis append.assoc append_Cons append_Nil)
  moreover have "list_all is_scope_char ?w"
    by (simp add: list_all_iff) (meson set_takeWhileD)
  ultimately show ?thesis
    using cond sc by auto
qed

lemma match_tail_Some:
  assumes "match_tail s = Some t"
  shows "\<exists>sc r. is_scope sc \<and> s = sc @ '':'' @ r \<and> t = sc @ '':'' @ takeWhile is_space r"
proof (cases "\<exists>sc t'. match_scope s = Some sc \<and> match_colon_space (drop (length sc) s) = Some t'")
  case True
  then obtain sc t' where sc: "match_scope s = Some sc"
    and t': "match_colon_space (drop (length sc) s) = Some t'" by blast
  obtain w r0 where w: "w \<noteq> []" "list_all is_scope_char w" "sc = ''('' @ w @ '')''" "s = sc @ r0"
    using match_scope_Some [OF sc] by blast
  have "drop (length sc) s = r0" using w(4) by simp
  then obtain r where r: "r0 = '':'' @ r" "t' = '':'' @ takeWhile is_space r"
    using match_colon_space_Some t' by metis
  have "is_scope sc" using w by (auto simp: is_scope_def)
  moreover have "t = sc @ t'" using assms sc t' by (simp add: match_tail_def)
  ultimately show ?thesis using w(4) r by blast
next
  case False
  then have "match_colon_space s = Some t"
    using assms by (auto simp: match_tail_def split: option.splits)
  then obtain r where "s = '':'' @ r" "t = '':'' @ takeWhile is_space r"
    using match_colon_space_Some by blast
  moreover have "is_scope []" by (simp add: is_scope_def)
  ultimately show ?thesis by (metis append_Nil)
qed

lemma match_types_Some:
  assumes "match_types ks s = Some p"
  shows "\<exists>k \<in> set ks. \<exists>t. length k \<le> length s \<and> map to_lower (take (length k) s) = k \<and>
           match_tail (drop (length k) s) = Some t \<and> p = take (length k) s @ t"
  using assms
proof (induction ks)
  case Nil
  then show ?case by simp
next
  case (Cons a ks)
  show ?case
  proof (cases "length a \<le> length s \<and> map to_lower (take (length a) s) = a \<and>
                 match_tail (drop (length a) s) \<noteq> None")
    case True
    then obtain t where t: "match_tail (drop (length a) s) = Some t" by auto
    then have "p = take (length a) s @ t" using Cons.prems True by simp
    then show ?thesis using True t by auto
  next
    case False
    then have "match_types ks s = Some p"
      using Cons.prems by (auto split: if_splits option.splits)
    then show ?thesis using Cons.IH by auto
  qed
qed

lemma pattern_Some:
  assumes "conventionalPrefixPattern m = Some p"
  shows "\<exists>k sc r. map to_lower k \<in> set conventional_types \<and> is_scope sc \<and>
           m = k @ sc @ '':'' @ r \<and> p = k @ sc @ '':'' @ takeWhile is_space r"
proof -
  obtain k t where k: "k \<in> set conventional_types" "length k \<le> length m"
      "map to_lower (take (length k) m) = k" "match_tail (drop (length k) m) = Some t"
      "p = take (length k) m @ t"
    using match_types_Some assms unfolding conventionalPrefixPattern_def by blast
  obtain sc r where sc: "is_scope sc" "drop (length k) m = sc @ '':'' @ r"
      "t = sc @ '':'' @ takeWhile is_space r"
    using match_tail_Some [OF k(4)] by blast
  have "m = take (length k) m @ sc @ '':'' @ r"
    using sc(2) by (metis append_take_drop_id)
  then show ?thesis using k(1,3,5) sc(1,3) by metis
qed

lemma takeWhile_all: "list_all P ws \<Longrightarrow> takeWhile P (ws @ r) = ws @ takeWhile P r"
  by (simp add: list_all_iff)

lemma dropWhile_all: "list_all P ws \<Longrightarrow> dropWhile P (ws @ r) = dropWhile P r"
  by (simp add: list_all_iff)

lemma pattern_on_prefix:
  assumes "conventional_prefix p"
  shows "conventionalPrefixPattern (p @ r) = Some (p @ takeWhile is_space r)"
proof -
  obtain k sc ws where p: "map to_lower k \<in> set conventional_types" "is_scope sc"
      "list_all is_space ws" "p = k @ sc @ '':'' @ ws"
    using assms unfolding conventional_prefix_def by blast
  have "conventionalPrefixPattern (k @ sc @ '':'' @ (ws @ r)) =
          Some (k @ sc @ '':'' @ takeWhile is_space (ws @ r))"
    by (rule pattern_hit [OF p(1,2)])
  then show ?thesis using p(3,4) by (simp add: takeWhile_all)
qed

lemma begins_with_prefix_iff: "begins_with_prefix m \<longleftrightarrow> conventionalPrefixPattern m \<noteq> None"
proof
  assume "begins_with_prefix m"
  then obtain p r where "conventional_prefix p" "m = p @ r"
    unfolding begins_with_prefix_def by blast
  then show "conventionalPrefixPattern m \<noteq> None"
    using pattern_on_prefix by simp
next
  assume "conventionalPrefixPattern m \<noteq> None"
  then obtain p where "conventionalPrefixPattern m = Some p" by auto
  then obtain k sc r where k: "map to_lower k \<in> set conventional_types" "is_scope sc"
      "m = k @ sc @ '':'' @ r"
    using pattern_Some by blast
  define p0 where "p0 = k @ sc @ '':''"
  have "list_all is_space []" and "p0 = k @ sc @ '':'' @ []"
    by (simp_all add: p0_def)
  then have "conventional_prefix p0"
    unfolding conventional_prefix_def using k(1,2) by blast
  moreover have "m = p0 @ r"
    using k(3) by (simp add: p0_def)
  ultimately show "begins_with_prefix m"
    unfolding begins_with_prefix_def by blast
qed

lemma anonymizeMessage_on_prefix:
  assumes "conventional_prefix p"
  shows "anonymizeMessage (Some (p @ r)) =
           (p @ takeWhile is_space r) @ ''hash_'' @ take 8 (sha256_hex (dropWhile is_space r))"
proof -
  have ne: "p \<noteq> []"
    using assms unfolding conventional_prefix_def by auto
  have "drop (length (p @ takeWhile is_space r)) (p @ r) = dropWhile is_space r"
    by (metis append.assoc append_eq_conv_conj takeWhile_dropWhile_id)
  then show ?thesis
    using ne pattern_on_prefix [OF assms, of r]
    by (simp add: anonymizeMessage_def truthy_def createConsistentHash_def del: drop_append)
qed

lemma anonymizeMessage_plain:
  assumes "m \<noteq> []" and "\<not> begins_with_prefix m"
  shows "anonymizeMessage (Some m) = ''hash_'' @ take 8 (sha256_hex m)"
  using assms
  by (simp add: begins_with_prefix_iff anonymizeMessage_def truthy_def createConsistentHash_def)

lemma anonymizeMessage_falsy:
  "anonymizeMessage None = ''hash_'' @ take 8 (sha256_hex ''empty'')"
  "anonymizeMessage (Some []) = ''hash_'' @ take 8 (sha256_hex ''empty'')"
  by (simp_all add: anonymizeMessage_def truthy_def createConsistentHash_def)

lemma take8_hex8: "is_hex8 (take 8 (sha256_hex s))"
  using createConsistentHash_hex8 [of s] by (simp add: createConsistentHash_def)


subsection \<open>Claims on the anonymizer\<close>

text \<open>
  C3.  A message that begins with a conventional-commit prefix (a keyword of the fixed set
  in any case, an optional parenthesised scope of word characters and hyphens, a colon,
  optional whitespace) is anonymized to that prefix as written, then \<^verbatim>\<open>hash_\<close>, then the first
  eight hexadecimal characters of the SHA-256 digest of the remainder.  The prefix takes all
  the whitespace that follows the colon: for a prefix \<open>p\<close> of the grammar followed by \<open>r\<close>
  the preserved text is \<open>p\<close> with the leading whitespace of \<open>r\<close>, and the remainder is \<open>r\<close>
  without it.
\<close>

theorem anonymizeMessage_preserves_prefix:
  assumes "conventional_prefix p"
  shows "anonymizeMessage (Some (p @ r)) =
           (p @ takeWhile is_space r) @ ''hash_'' @ take 8 (sha256_hex (dropWhile is_space r)) \<and>
         is_hex8 (take 8 (sha256_hex (dropWhile is_space r)))"
  using anonymizeMessage_on_prefix [OF assms] take8_hex8 by simp

theorem anonymizeMessage_preserves_prefix_witness:
  "conventional_prefix ''fix(auth): '' \<and>
   anonymizeMessage (Some ''fix(auth): resolve login issue'') =
     ''fix(auth): hash_'' @ take 8 (sha256_hex ''resolve login issue'') \<and>
   conventional_prefix ''FEAT:'' \<and>
   anonymizeMessage (Some ''FEAT:  add feature'') =
     ''FEAT:  hash_'' @ take 8 (sha256_hex ''add feature'')"
proof -
  have sc: "is_scope ''(auth)''"
    unfolding is_scope_def
    by (rule disjI2, rule exI [of _ "''auth''"]) (simp add: is_scope_char_def is_word_char_def)
  have "map to_lower ''fix'' \<in> set conventional_types \<and> is_scope ''(auth)'' \<and>
        list_all is_space '' '' \<and> ''fix(auth): '' = ''fix'' @ ''(auth)'' @ '':'' @ '' ''"
    using sc by (simp add: to_lower_def conventional_types_def is_space_def)
  then have p1: "conventional_prefix ''fix(auth): ''"
    unfolding conventional_prefix_def by blast
  have "map to_lower ''FEAT'' \<in> set conventional_types \<and> is_scope [] \<and>
        list_all is_space [] \<and> ''FEAT:'' = ''FEAT'' @ [] @ '':'' @ []"
    by (simp add: to_lower_def conventional_types_def is_scope_def)
  then have p2: "conventional_prefix ''FEAT:''"
    unfolding conventional_prefix_def by blast
  show ?thesis
    using p1 p2 anonymizeMessage_preserves_prefix [OF p1, of "''resolve login issue''"]
      anonymizeMessage_preserves_prefix [OF p2, of "''  add feature''"]
    by (simp add: is_space_def)
qed

text \<open>
  C8, as the claim states it, fails at the empty string: it is a defined message without a
  prefix, yet it is not anonymized to the hash of the entire message but, like the absent
  message, to the hash of the word \<^verbatim>\<open>empty\<close>.
\<close>

theorem anonymizeMessage_empty_string_counterexample:
  "\<not> begins_with_prefix '''' \<and>
   anonymizeMessage (Some '''') \<noteq> ''hash_'' @ take 8 (sha256_hex '''') \<and>
   anonymizeMessage (Some '''') = anonymizeMessage None"
proof -
  have "\<not> begins_with_prefix ''''"
    by (simp add: begins_with_prefix_iff conventionalPrefixPattern_def conventional_types_def)
  moreover have "anonymizeMessage (Some '''') = ''hash_2e1cfa82''"
    by (simp add: anonymizeMessage_falsy sha256_hex_empty_word)
  moreover have "''hash_'' @ take 8 (sha256_hex '''') = ''hash_e3b0c442''"
    by (simp add: sha256_hex_empty_string)
  ultimately show ?thesis
    by (simp add: anonymizeMessage_falsy)
qed

text \<open>
  C8, amended.  A non-empty message that does not begin with a conventional-commit prefix is
  anonymized to \<^verbatim>\<open>hash_\<close> and the first eight lowercase hexadecimal characters of the SHA-256
  digest of the entire message; the absent message and the empty string both map to the
  hash of the word \<^verbatim>\<open>empty\<close>.
\<close>

theorem anonymizeMessage_without_prefix:
  assumes "m \<noteq> []" and "\<not> begins_with_prefix m"
  shows "anonymizeMessage (Some m) = ''hash_'' @ take 8 (sha256_hex m) \<and>
         is_hex8 (take 8 (sha256_hex m)) \<and>
         anonymizeMessage (Some []) = ''hash_'' @ take 8 (sha256_hex ''empty'') \<and>
         anonymizeMessage None = ''hash_'' @ take 8 (sha256_hex ''empty'')"
  using anonymizeMessage_plain [OF assms] take8_hex8 anonymizeMessage_falsy by simp

theorem anonymizeMessage_without_prefix_witness:
  "''some random commit message'' \<noteq> [] \<and>
   \<not> begins_with_prefix ''some random commit message'' \<and>
   anonymizeMessage (Some ''some random commit message'') =
     ''hash_'' @ take 8 (sha256_hex ''some random commit message'')"
proof -
  have ne: "''some random commit message'' \<noteq> []" by simp
  have np: "\<not> begins_with_prefix ''some random commit message''"
    by (simp add: begins_with_prefix_iff conventionalPrefixPattern_def conventional_types_def
        to_lower_def)
  show ?thesis
    using ne np anonymizeMessage_without_prefix [OF ne np] by simp
qed


subsection \<open>The commit message\<close>

lemma truthy_cases:
  obtains (absent) "\<not> truthy v" "present v = None"
  | (given) s where "v = Some s" "s \<noteq> []" "present v = Some s"
  by (cases v) (auto simp: truthy_def present_def)

lemma drop_absent_append: "drop_absent (xs @ ys) = drop_absent xs @ drop_absent ys"
  by (induction xs rule: drop_absent.induct) simp_all

lemma drop_absent_Cons2: "drop_absent (v # w # vs) = drop_absent [v] @ drop_absent (w # vs)"
  by (cases v) simp_all

lemma push_if_truthy:
  "(if truthy v then parts @ [f (the v)] else parts) =
     parts @ drop_absent [map_option f (present v)]"
  by (cases v) (auto simp: truthy_def present_def)

lemma push_if_truthy_anonymized:
  "(if truthy v then parts @ [if a then g v else the v] else parts) =
     parts @ drop_absent [map_option (\<lambda>r. if a then g (Some r) else r) (present v)]"
  by (cases v) (auto simp: truthy_def present_def)

lemma buildCommitMessage_spec: "buildCommitMessage c anon = spec_commit_message c anon"
proof -
  have "drop_absent (message_fields c anon) =
      [''['' @ c_type c @ '']''] @
      drop_absent [map_option (\<lambda>r. if anon then anonymizeRepository (Some r) else r)
                     (present (c_repository c))] @
      drop_absent [map_option (\<lambda>t. ''('' @ t @ '')'') (present (c_target c))] @
      drop_absent [map_option (\<lambda>p. ''{'' @ p @ ''}'') (present (c_projectId c))] @
      drop_absent [map_option (\<lambda>t. if anon then anonymizeMessage (Some t) else t)
                     (present (c_text c))]"
    by (simp add: message_fields_def header_fields_def text_field_def drop_absent_Cons2)
  then show ?thesis
    unfolding buildCommitMessage_def spec_commit_message_def Let_def
      push_if_truthy_anonymized push_if_truthy [where f = "\<lambda>t. ''('' @ t @ '')''"]
      push_if_truthy [where f = "\<lambda>p. ''{'' @ p @ ''}''"]
    by simp
qed

lemma anonymizeMessage_nonempty: "anonymizeMessage v \<noteq> []" "[] \<noteq> anonymizeMessage v"
  by (simp_all add: anonymizeMessage_def Let_def split: option.splits)

lemma anonymizeRepository_nonempty: "anonymizeRepository v \<noteq> []" "[] \<noteq> anonymizeRepository v"
  by (simp_all add: anonymizeRepository_def)

lemma fields_nonempty: "[] \<notin> set (drop_absent (message_fields c anon))"
proof -
  have r: "[] \<notin> set (drop_absent [map_option (\<lambda>r. if anon then anonymizeRepository (Some r) else r)
                                       (present (c_repository c))])"
    by (cases "c_repository c" rule: truthy_cases) (simp_all add: anonymizeRepository_nonempty)
  have t: "[] \<notin> set (drop_absent [map_option (\<lambda>t. ''('' @ t @ '')'') (present (c_target c))])"
    by (cases "c_target c" rule: truthy_cases) simp_all
  have p: "[] \<notin> set (drop_absent [map_option (\<lambda>p. ''{'' @ p @ ''}'') (present (c_projectId c))])"
    by (cases "c_projectId c" rule: truthy_cases) simp_all
  have x: "[] \<notin> set (drop_absent [text_field c anon])"
    unfolding text_field_def
    by (cases "c_text c" rule: truthy_cases) (simp_all add: anonymizeMessage_nonempty)
  have "message_fields c anon =
      [Some (''['' @ c_type c @ '']'')] @
      [map_option (\<lambda>r. if anon then anonymizeRepository (Some r) else r) (present (c_repository c))] @
      [map_option (\<lambda>t. ''('' @ t @ '')'') (present (c_target c))] @
      [map_option (\<lambda>p. ''{'' @ p @ ''}'') (present (c_projectId c))] @
      [text_field c anon]"
    by (simp add: message_fields_def header_fields_def)
  then show ?thesis
    using r t p x by (simp only: drop_absent_append set_append Un_iff) simp
qed

text \<open>
  C6.  The commit message is \<^verbatim>\<open>[type]\<close>, the repository (anonymized or raw), \<^verbatim>\<open>(target)\<close>,
  \<^verbatim>\<open>{projectId}\<close> and the text (anonymized or raw), in that order, a field that is absent
  being dropped and none emitted empty, joined by a colon and a space.  A field counts as
  present when it is defined and not the empty string.  The two examples of the claim give
  exactly the two messages it names.
\<close>

theorem buildCommitMessage_fields:
  "buildCommitMessage c anon = join_str '': '' (drop_absent (message_fields c anon)) \<and>
   [] \<notin> set (drop_absent (message_fields c anon)) \<and>
   buildCommitMessage
     \<lparr>c_type = ''commit'', c_timestamp = ''2026-01-01T10:00:00Z'',
      c_repository = Some ''owner/repo'', c_projectId = None, c_target = None,
      c_text = Some ''feat: add feature'', c_url = None\<rparr> False
     = ''[commit]: owner/repo: feat: add feature'' \<and>
   buildCommitMessage
     \<lparr>c_type = ''pr'', c_timestamp = ''2026-01-02T12:00:00Z'',
      c_repository = Some ''owner/repo'', c_projectId = None, c_target = Some ''main'',
      c_text = Some ''Fix bug'', c_url = None\<rparr> False
     = ''[pr]: owner/repo: (main): Fix bug''"
proof -
  have "buildCommitMessage c anon = join_str '': '' (drop_absent (message_fields c anon))"
    using buildCommitMessage_spec by (simp add: spec_commit_message_def)
  moreover note fields_nonempty
  moreover have "buildCommitMessage
     \<lparr>c_type = ''commit'', c_timestamp = ''2026-01-01T10:00:00Z'',
      c_repository = Some ''owner/repo'', c_projectId = None, c_target = None,
      c_text = Some ''feat: add feature'', c_url = None\<rparr> False
     = ''[commit]: owner/repo: feat: add feature''"
    by (simp add: buildCommitMessage_def truthy_def)
  moreover have "buildCommitMessage
     \<lparr>c_type = ''pr'', c_timestamp = ''2026-01-02T12:00:00Z'',
      c_repository = Some ''owner/repo'', c_projectId = None, c_target = Some ''main'',
      c_text = Some ''Fix bug'', c_url = None\<rparr> False
     = ''[pr]: owner/repo: (main): Fix bug''"
    by (simp add: buildCommitMessage_def truthy_def)
  ultimately show ?thesis by blast
qed


lemma keyword_never_kind_form:
  "\<forall>kw \<in> set conventional_types.
     length kw \<le> 8 \<and> take (length kw) ''pr_hash_'' \<noteq> kw \<and> take (length kw) ''review_hash_'' \<noteq> kw"
  by code_simp

lemma kind_forms_lower:
  "map to_lower ''pr_hash_'' = ''pr_hash_''" "map to_lower ''review_hash_'' = ''review_hash_''"
  by (simp_all add: to_lower_def)

lemma anonymizeMessage_not_kind_form:
  assumes q: "q = ''pr_hash_'' \<or> q = ''review_hash_''"
  shows "\<not> prefix q (anonymizeMessage v)"
proof (cases "truthy v \<and> conventionalPrefixPattern (the v) \<noteq> None")
  case False
  then have "anonymizeMessage v = ''hash_'' @ createConsistentHash ''empty'' 8 \<or>
             anonymizeMessage v = ''hash_'' @ createConsistentHash (the v) 8"
    by (cases "truthy v") (simp_all add: anonymizeMessage_def)
  then obtain h where "anonymizeMessage v = ''hash_'' @ h"
    by blast
  then show ?thesis using q by auto
next
  case True
  then obtain p where p: "conventionalPrefixPattern (the v) = Some p" by auto
  obtain k sc r where k: "map to_lower k \<in> set conventional_types"
      "p = k @ sc @ '':'' @ takeWhile is_space r"
    using pattern_Some [OF p] by blast
  obtain rest where res: "anonymizeMessage v = k @ rest"
    using True p k(2) by (simp add: anonymizeMessage_def Let_def)
  have kw: "length (map to_lower k) \<le> 8" "take (length (map to_lower k)) q \<noteq> map to_lower k"
    using keyword_never_kind_form k(1) q by auto
  have lq: "8 \<le> length q" "map to_lower q = q"
    using q kind_forms_lower by auto
  show ?thesis
  proof
    assume "prefix q (anonymizeMessage v)"
    then obtain z where "k @ rest = q @ z"
      using res by (auto simp: prefix_def)
    then have "take (length k) q = k"
      using kw(1) lq(1) by (metis append_eq_append_conv_if append_eq_conv_conj length_map le_trans)
    then have "take (length (map to_lower k)) (map to_lower q) = map to_lower k"
      by (simp add: take_map)
    then show False using kw(2) lq(2) by simp
  qed
qed

lemma anonymizeText_kind_form:
  "prefix ''pr_hash_'' (anonymizeText x Pr)" "prefix ''review_hash_'' (anonymizeText x Review)"
  by (simp_all add: anonymizeText_def)

lemma buildCommitMessage_text_last:
  assumes "truthy (c_text c)"
  shows "buildCommitMessage c True =
           join_str '': '' (drop_absent (header_fields c True) @ [anonymizeMessage (c_text c)])"
proof -
  obtain s where "c_text c = Some s" "present (c_text c) = Some s"
    using assms by (cases "c_text c" rule: truthy_cases) auto
  then show ?thesis
    by (simp add: buildCommitMessage_spec spec_commit_message_def message_fields_def
        text_field_def drop_absent_append)
qed

text \<open>
  C10.  With anonymization on, the text of a contribution, when present (defined and not
  empty), enters the commit message as its last field through \<open>anonymizeMessage\<close>, whatever
  the type of the contribution: a text that begins with a conventional-commit prefix keeps
  it verbatim, and the field is never one of the outputs \<^verbatim>\<open>pr_hash_...\<close> and
  \<^verbatim>\<open>review_hash_...\<close> of \<open>anonymizeText\<close>.
\<close>

theorem text_field_by_anonymizeMessage:
  assumes "truthy (c_text c)"
  shows "buildCommitMessage c True =
           join_str '': '' (drop_absent (header_fields c True) @ [anonymizeMessage (c_text c)]) \<and>
         (\<forall>p r. conventional_prefix p \<and> c_text c = Some (p @ r) \<longrightarrow>
            anonymizeMessage (c_text c) =
              (p @ takeWhile is_space r) @ ''hash_'' @ take 8 (sha256_hex (dropWhile is_space r))) \<and>
         (\<forall>x. anonymizeMessage (c_text c) \<noteq> anonymizeText x Pr \<and>
              anonymizeMessage (c_text c) \<noteq> anonymizeText x Review) \<and>
         \<not> prefix ''pr_hash_'' (anonymizeMessage (c_text c)) \<and>
         \<not> prefix ''review_hash_'' (anonymizeMessage (c_text c))"
proof -
  have np: "\<not> prefix ''pr_hash_'' (anonymizeMessage (c_text c))"
    and nr: "\<not> prefix ''review_hash_'' (anonymizeMessage (c_text c))"
    using anonymizeMessage_not_kind_form by blast+
  have "\<forall>x. anonymizeMessage (c_text c) \<noteq> anonymizeText x Pr \<and>
             anonymizeMessage (c_text c) \<noteq> anonymizeText x Review"
    using np nr anonymizeText_kind_form by metis
  then show ?thesis
    using buildCommitMessage_text_last [OF assms] anonymizeMessage_on_prefix np nr by auto
qed

theorem text_field_by_anonymizeMessage_witness:
  "truthy (Some ''fix(auth): resolve login issue'') \<and>
   buildCommitMessage
     \<lparr>c_type = ''pr'', c_timestamp = ''2026-01-02T12:00:00Z'', c_repository = None,
      c_projectId = None, c_target = Some ''main'',
      c_text = Some ''fix(auth): resolve login issue'', c_url = None\<rparr> True =
     ''[pr]: (main): fix(auth): hash_'' @ take 8 (sha256_hex ''resolve login issue'')"
proof -
  let ?c = "\<lparr>c_type = ''pr'', c_timestamp = ''2026-01-02T12:00:00Z'', c_repository = None,
      c_projectId = None, c_target = Some ''main'',
      c_text = Some ''fix(auth): resolve login issue'', c_url = None\<rparr>"
  have t: "truthy (c_text ?c)" by (simp add: truthy_def)
  have sc: "is_scope ''(auth)''"
    unfolding is_scope_def
    by (rule disjI2, rule exI [of _ "''auth''"]) (simp add: is_scope_char_def is_word_char_def)
  have "map to_lower ''fix'' \<in> set conventional_types \<and> is_scope ''(auth)'' \<and>
        list_all is_space '' '' \<and> ''fix(auth): '' = ''fix'' @ ''(auth)'' @ '':'' @ '' ''"
    using sc by (simp add: to_lower_def conventional_types_def is_space_def)
  then have p: "conventional_prefix ''fix(auth): ''"
    unfolding conventional_prefix_def by blast
  have split: "c_text ?c = Some (''fix(auth): '' @ ''resolve login issue'')" by simp
  note inst = text_field_by_anonymizeMessage [OF t]
  have "anonymizeMessage (c_text ?c) =
      (''fix(auth): '' @ takeWhile is_space ''resolve login issue'') @ ''hash_'' @
        take 8 (sha256_hex (dropWhile is_space ''resolve login issue''))"
    using inst p split by blast
  then have "anonymizeMessage (c_text ?c) =
      ''fix(auth): hash_'' @ take 8 (sha256_hex ''resolve login issue'')"
    by (simp add: is_space_def)
  moreover have "drop_absent (header_fields ?c True) = [''[pr]'', ''(main)'']"
    by (simp add: header_fields_def present_def truthy_def)
  ultimately show ?thesis
    using inst t by simp
qed


subsection \<open>The environment around a commit\<close>

lemma git_raw_frame:
  "env (snd (git_raw h d args w)) = env w"
  "paths (snd (git_raw h d args w)) = paths w"
  "config (snd (git_raw h d args w)) = config w"
  "arrays (snd (git_raw h d args w)) = arrays w"
  "console (snd (git_raw h d args w)) = console w"
  "cwd (snd (git_raw h d args w)) = cwd w"
  by (simp_all add: git_raw_def record_call_def Let_def split: option.splits)

lemma restore_only_env:
  "restoreEnvironmentVariables original w = w\<lparr>env := env (restoreEnvironmentVariables original w)\<rparr>"
proof (induction original arbitrary: w)
  case Nil
  then show ?case by simp
next
  case (Cons kv original)
  obtain key val where kv: "kv = (key, val)" by (cases kv)
  show ?case
  proof (cases val)
    case None
    then show ?thesis
      using Cons.IH [of "w\<lparr>env := (env w)(key := None)\<rparr>"] kv by simp
  next
    case (Some v)
    then show ?thesis
      using Cons.IH [of "w\<lparr>env := (env w)(key \<mapsto> v)\<rparr>"] kv by simp
  qed
qed

lemma restore_env:
  "env (restoreEnvironmentVariables (map (\<lambda>key. (key, e key)) keys) w) x =
     (if x \<in> set keys then e x else env w x)"
proof (induction keys arbitrary: w)
  case Nil
  then show ?case by simp
next
  case (Cons k keys)
  show ?case
    by (cases "e k") (simp_all add: Cons.IH)
qed

lemma createCommit_env: "env (snd (createCommit h this options w)) = env w"
proof (cases "co_date options")
  case None
  then show ?thesis by (simp add: createCommit_def)
next
  case (Some d)
  let ?w1 = "w\<lparr>env := (env w)(''GIT_AUTHOR_DATE'' \<mapsto> toISOString h d,
                                  ''GIT_COMMITTER_DATE'' \<mapsto> toISOString h d,
                                  ''GIT_COMMITTER_NAME'' \<mapsto> co_authorName options,
                                  ''GIT_COMMITTER_EMAIL'' \<mapsto> co_authorEmail options)\<rparr>"
  let ?args = "[''commit'', ''--allow-empty'', ''--message'', co_message options, ''--author'',
                co_authorName options @ '' <'' @ co_authorEmail options @ ''>'']"
  let ?w2 = "snd (git_raw h (repositoryPath this) ?args ?w1)"
  have res: "snd (createCommit h this options w) =
      restoreEnvironmentVariables (map (\<lambda>key. (key, env w key)) git_env_names) ?w2"
    using Some by (simp add: createCommit_def Let_def split: prod.splits)
  have "env (snd (createCommit h this options w)) x = env w x" for x
  proof (cases "x \<in> set git_env_names")
    case True
    then show ?thesis by (simp add: res restore_env)
  next
    case False
    then have "env ?w2 x = env w x"
      by (simp add: git_raw_frame git_env_names_def)
    then show ?thesis using False by (simp add: res restore_env)
  qed
  then show ?thesis by (rule ext)
qed

text \<open>
  C1.  After any call of \<open>createCommit\<close>, the environment of the process is what it was
  before the call: each of the four variables has its earlier value, and a variable that
  was unset is unset again.  The statement has no hypothesis on the outcome: it holds when
  the tool succeeds, when the tool fails, and when the date is invalid.
\<close>

theorem createCommit_restores_environment:
  "env (snd (createCommit h this options w)) = env w \<and>
   env (snd (createCommit h this options w)) ''GIT_AUTHOR_DATE'' = env w ''GIT_AUTHOR_DATE'' \<and>
   env (snd (createCommit h this options w)) ''GIT_COMMITTER_DATE'' = env w ''GIT_COMMITTER_DATE'' \<and>
   env (snd (createCommit h this options w)) ''GIT_COMMITTER_NAME'' = env w ''GIT_COMMITTER_NAME'' \<and>
   env (snd (createCommit h this options w)) ''GIT_COMMITTER_EMAIL'' = env w ''GIT_COMMITTER_EMAIL''"
  by (simp add: createCommit_env)


subsection \<open>Initialisation\<close>

lemma initializeRepository_present:
  assumes "path_join (repositoryPath this) ''.git'' \<in> paths w"
  shows "initializeRepository h this w = (Inr False, w)"
  using assms by (simp add: initializeRepository_def)

lemma git_init_paths: "paths w \<subseteq> paths (snd (git_init h d w))"
  by (auto simp: git_init_def record_call_def Let_def split: option.splits)

lemma git_addConfig_paths: "paths (snd (git_addConfig h d k v w)) = paths w"
  by (simp add: git_addConfig_def record_call_def Let_def split: option.splits)

lemma initializeRepository_absent:
  assumes "path_join (repositoryPath this) ''.git'' \<notin> paths w"
  shows "case initializeRepository h this w of
           (Inr isNew, w') \<Rightarrow>
             isNew \<and>
             git_calls w' = git_calls w @
               [GitInit (repositoryPath this),
                GitAddConfig (repositoryPath this) ''commit.gpgsign'' ''false''] \<and>
             config w' (repositoryPath this) = [(''commit.gpgsign'', ''false'')] \<and>
             history w' (repositoryPath this) = [] \<and>
             paths w' = insert (path_join (repositoryPath this) ''.git'') (paths w)
         | (Inl e, w') \<Rightarrow>
             take (Suc (length (git_calls w))) (git_calls w') =
               git_calls w @ [GitInit (repositoryPath this)]"
  using assms
  by (simp add: initializeRepository_def git_init_def git_addConfig_def record_call_def Let_def
      split: option.splits)

lemma initializeRepository_succeeds:
  assumes "path_join (repositoryPath this) ''.git'' \<notin> paths w"
    and "init_fails h (repositoryPath this) w = None"
    and "addConfig_fails h (repositoryPath this) (snd (git_init h (repositoryPath this) w)) = None"
  shows "fst (initializeRepository h this w) = Inr True"
  using assms
  by (simp add: initializeRepository_def git_init_def git_addConfig_def record_call_def Let_def
      split: option.splits)

lemma initializeRepository_then_present:
  assumes "initializeRepository h this w = (Inr r, w')"
  shows "path_join (repositoryPath this) ''.git'' \<in> paths w'"
proof (cases "path_join (repositoryPath this) ''.git'' \<in> paths w")
  case True
  then show ?thesis using assms by (simp add: initializeRepository_present)
next
  case False
  then show ?thesis
    using initializeRepository_absent [OF False, of h] assms by simp
qed

lemma createCommit_invalid_date:
  assumes "co_date options = None"
  shows "createCommit h this options w = (Inl (RangeError ''Invalid time value''), w)"
  using assms by (simp add: createCommit_def)

lemma createCommit_valid_date:
  assumes "co_date options = Some d"
  shows "\<exists>r. createCommit h this options w =
           (r, w\<lparr>history :=
                   if isl r then history w
                   else (history w)(repositoryPath this :=
                          history w (repositoryPath this) @ [made_commit h options]),
                 git_calls := git_calls w @ [commit_call h this options]\<rparr>)"
proof -
  let ?w1 = "w\<lparr>env := (env w)(''GIT_AUTHOR_DATE'' \<mapsto> toISOString h d,
                                  ''GIT_COMMITTER_DATE'' \<mapsto> toISOString h d,
                                  ''GIT_COMMITTER_NAME'' \<mapsto> co_authorName options,
                                  ''GIT_COMMITTER_EMAIL'' \<mapsto> co_authorEmail options)\<rparr>"
  let ?args = "[''commit'', ''--allow-empty'', ''--message'', co_message options, ''--author'',
                co_authorName options @ '' <'' @ co_authorEmail options @ ''>'']"
  let ?raw = "git_raw h (repositoryPath this) ?args ?w1"
  let ?orig = "map (\<lambda>key. (key, env w key)) git_env_names"
  have cc: "createCommit h this options w = (fst ?raw, restoreEnvironmentVariables ?orig (snd ?raw))"
    using assms by (simp add: createCommit_def Let_def split: prod.splits)
  have e: "env (restoreEnvironmentVariables ?orig (snd ?raw)) = env w"
    using createCommit_env [of h this options w] unfolding cc by (simp only: snd_conv)
  have fin: "restoreEnvironmentVariables ?orig (snd ?raw) = (snd ?raw)\<lparr>env := env w\<rparr>"
    by (subst restore_only_env) (simp only: e)
  have vars: "map (env ?w1) git_env_names =
      [Some (toISOString h d), Some (toISOString h d), Some (co_authorName options),
       Some (co_authorEmail options)]"
    by (simp add: git_env_names_def)
  show ?thesis
  proof (cases "raw_fails h (repositoryPath this) ?args ?w1")
    case None
    then have "fst ?raw = Inr ()"
      by (simp add: git_raw_def Let_def)
    moreover have "(snd ?raw)\<lparr>env := env w\<rparr> =
        w\<lparr>history := (history w)(repositoryPath this :=
                         history w (repositoryPath this) @ [made_commit h options]),
          git_calls := git_calls w @ [commit_call h this options]\<rparr>"
      using None assms vars
      by (simp add: git_raw_def Let_def record_call_def made_commit_def commit_call_def
          author_string_def)
    ultimately show ?thesis
      unfolding cc fin by (intro exI [of _ "Inr ()"]) simp
  next
    case (Some e)
    then have "fst ?raw = Inl (Error e)"
      by (simp add: git_raw_def Let_def)
    moreover have "(snd ?raw)\<lparr>env := env w\<rparr> =
        w\<lparr>history := history w, git_calls := git_calls w @ [commit_call h this options]\<rparr>"
      using Some assms vars
      by (simp add: git_raw_def Let_def record_call_def commit_call_def author_string_def)
    ultimately show ?thesis
      unfolding cc fin by (intro exI [of _ "Inl (Error e)"]) simp
  qed
qed

lemma createCommit_paths: "paths (snd (createCommit h this options w)) = paths w"
proof (cases "co_date options")
  case None
  then show ?thesis by (simp add: createCommit_invalid_date)
next
  case (Some d)
  then show ?thesis
    using createCommit_valid_date [OF Some, of h this w] by auto
qed

lemma getCommitCount_paths: "paths (snd (getCommitCount h this w)) = paths w"
  by (simp add: getCommitCount_def git_log_def record_call_def split: option.splits)

text \<open>
  C5.  \<open>initializeRepository\<close> looks only at whether the control directory exists at the
  target path.  Where it exists the call returns false and leaves the world as it is: no
  tool call, no configuration write.  Where it does not exist the call starts with the
  tool's initialisation; when it returns at all it returns true, having initialised the
  repository and set \<^verbatim>\<open>commit.gpgsign\<close> to \<^verbatim>\<open>false\<close>, and it does return whenever the two tool
  calls succeed.  After a call that returned, the control directory exists, commits and
  counts keep it, and every further call returns false and changes nothing.
\<close>

theorem initializeRepository_by_control_directory:
  "(path_join (repositoryPath this) ''.git'' \<in> paths w \<longrightarrow>
      initializeRepository h this w = (Inr False, w)) \<and>
   (path_join (repositoryPath this) ''.git'' \<notin> paths w \<longrightarrow>
      (case initializeRepository h this w of
         (Inr isNew, w') \<Rightarrow>
           isNew \<and>
           git_calls w' = git_calls w @
             [GitInit (repositoryPath this),
              GitAddConfig (repositoryPath this) ''commit.gpgsign'' ''false''] \<and>
           config w' (repositoryPath this) = [(''commit.gpgsign'', ''false'')] \<and>
           paths w' = insert (path_join (repositoryPath this) ''.git'') (paths w)
       | (Inl e, w') \<Rightarrow>
           take (Suc (length (git_calls w))) (git_calls w') =
             git_calls w @ [GitInit (repositoryPath this)])) \<and>
   (path_join (repositoryPath this) ''.git'' \<notin> paths w \<and>
    init_fails h (repositoryPath this) w = None \<and>
    addConfig_fails h (repositoryPath this) (snd (git_init h (repositoryPath this) w)) = None \<longrightarrow>
      fst (initializeRepository h this w) = Inr True) \<and>
   (\<forall>r w'. initializeRepository h this w = (Inr r, w') \<longrightarrow>
      path_join (repositoryPath this) ''.git'' \<in> paths w' \<and>
      path_join (repositoryPath this) ''.git'' \<in> paths (snd (createCommit h' this options w')) \<and>
      path_join (repositoryPath this) ''.git'' \<in> paths (snd (getCommitCount h' this w')) \<and>
      initializeRepository h' this w' = (Inr False, w'))"
proof (intro conjI impI allI)
  assume "path_join (repositoryPath this) ''.git'' \<in> paths w"
  then show "initializeRepository h this w = (Inr False, w)"
    by (rule initializeRepository_present)
next
  assume a: "path_join (repositoryPath this) ''.git'' \<notin> paths w"
  show "case initializeRepository h this w of
         (Inr isNew, w') \<Rightarrow>
           isNew \<and>
           git_calls w' = git_calls w @
             [GitInit (repositoryPath this),
              GitAddConfig (repositoryPath this) ''commit.gpgsign'' ''false''] \<and>
           config w' (repositoryPath this) = [(''commit.gpgsign'', ''false'')] \<and>
           paths w' = insert (path_join (repositoryPath this) ''.git'') (paths w)
       | (Inl e, w') \<Rightarrow>
           take (Suc (length (git_calls w))) (git_calls w') =
             git_calls w @ [GitInit (repositoryPath this)]"
    using initializeRepository_absent [OF a, of h]
    by (auto split: prod.splits sum.splits)
next
  assume "path_join (repositoryPath this) ''.git'' \<notin> paths w \<and>
    init_fails h (repositoryPath this) w = None \<and>
    addConfig_fails h (repositoryPath this) (snd (git_init h (repositoryPath this) w)) = None"
  then show "fst (initializeRepository h this w) = Inr True"
    using initializeRepository_succeeds by blast
next
  fix r w'
  assume a: "initializeRepository h this w = (Inr r, w')"
  then show p: "path_join (repositoryPath this) ''.git'' \<in> paths w'"
    by (rule initializeRepository_then_present)
  then show "path_join (repositoryPath this) ''.git'' \<in> paths (snd (createCommit h' this options w'))"
    by (simp add: createCommit_paths)
  from p show "path_join (repositoryPath this) ''.git'' \<in> paths (snd (getCommitCount h' this w'))"
    by (simp add: getCommitCount_paths)
  from p show "initializeRepository h' this w' = (Inr False, w')"
    by (rule initializeRepository_present)
qed


theorem initializeRepository_by_control_directory_witness:
  "path_join (repositoryPath (export_manager example_world)) ''.git'' \<notin> paths example_world \<and>
   ''/work/.git'' \<in> paths example_world \<and>
   fst (initializeRepository example_host (export_manager example_world) example_world) = Inr True \<and>
   initializeRepository example_host (export_manager example_world)
     (snd (initializeRepository example_host (export_manager example_world) example_world)) =
     (Inr False, snd (initializeRepository example_host (export_manager example_world) example_world))"
proof -
  let ?m = "export_manager example_world"
  let ?r = "initializeRepository example_host ?m example_world"
  note inst = initializeRepository_by_control_directory
    [of ?m example_world example_host example_host undefined]
  have absent: "path_join (repositoryPath ?m) ''.git'' \<notin> paths example_world"
    by (simp add: export_manager_def export_path_def path_join_def outputDirectory_def
        example_world_def)
  have ok: "init_fails example_host (repositoryPath ?m) example_world = None \<and>
      addConfig_fails example_host (repositoryPath ?m)
        (snd (git_init example_host (repositoryPath ?m) example_world)) = None"
    by (simp add: example_host_def)
  have new: "fst ?r = Inr True"
    using inst absent ok by blast
  then have "?r = (Inr True, snd ?r)"
    by (simp add: prod_eq_iff)
  then have "initializeRepository example_host ?m (snd ?r) = (Inr False, snd ?r)"
    using inst by blast
  moreover have "''/work/.git'' \<in> paths example_world"
    by (simp add: example_world_def)
  ultimately show ?thesis
    using absent new by blast
qed


subsection \<open>One pass of the loop\<close>

lemma commit_request_simps [simp]:
  "co_date (commit_request h an ae anon c) = Date_parse h (c_timestamp c)"
  "co_message (commit_request h an ae anon c) = buildCommitMessage c anon"
  "co_authorName (commit_request h an ae anon c) = an"
  "co_authorEmail (commit_request h an ae anon c) = ae"
  by (simp_all add: commit_request_def)

lemma createCommit_cases:
  obtains (invalid) "co_date options = None"
      "createCommit h this options w = (Inl (RangeError ''Invalid time value''), w)"
  | (failed) e where "co_date options \<noteq> None"
      "createCommit h this options w =
         (Inl e, w\<lparr>git_calls := git_calls w @ [commit_call h this options]\<rparr>)"
  | (created) "co_date options \<noteq> None"
      "createCommit h this options w =
         (Inr (), w\<lparr>history := (history w)(repositoryPath this :=
                           history w (repositoryPath this) @ [made_commit h options]),
                   git_calls := git_calls w @ [commit_call h this options]\<rparr>)"
proof (cases "co_date options")
  case None
  then show ?thesis using invalid createCommit_invalid_date by blast
next
  case (Some d)
  then obtain r where r: "createCommit h this options w =
           (r, w\<lparr>history :=
                   if isl r then history w
                   else (history w)(repositoryPath this :=
                          history w (repositoryPath this) @ [made_commit h options]),
                 git_calls := git_calls w @ [commit_call h this options]\<rparr>)"
    using createCommit_valid_date by blast
  show ?thesis
  proof (cases r)
    case (Inl e)
    then show ?thesis using failed [of e] r Some by simp
  next
    case (Inr u)
    then show ?thesis using created r Some by simp
  qed
qed

lemma commit_step_frame:
  "env (snd (commit_step h m an ae anon len c st)) = env (snd st)"
  "paths (snd (commit_step h m an ae anon len c st)) = paths (snd st)"
  "arrays (snd (commit_step h m an ae anon len c st)) = arrays (snd st)"
  "cwd (snd (commit_step h m an ae anon len c st)) = cwd (snd st)"
  "config (snd (commit_step h m an ae anon len c st)) = config (snd st)"
  by (cases h m "commit_request h an ae anon c" "snd st" rule: createCommit_cases;
      simp add: commit_step_def console_log_def console_warn_def Let_def)+

lemma commit_step_history:
  "history (snd (commit_step h m an ae anon len c st)) =
     (if isl (fst (createCommit h m (commit_request h an ae anon c) (snd st))) then history (snd st)
      else (history (snd st))(repositoryPath m :=
             history (snd st) (repositoryPath m) @ [made_commit h (commit_request h an ae anon c)]))"
  by (cases h m "commit_request h an ae anon c" "snd st" rule: createCommit_cases)
    (simp_all add: commit_step_def console_log_def console_warn_def Let_def)

lemma commit_step_calls:
  "git_calls (snd (commit_step h m an ae anon len c st)) =
     git_calls (snd st) @
       (if Date_parse h (c_timestamp c) = None then []
        else [commit_call h m (commit_request h an ae anon c)])"
  by (cases h m "commit_request h an ae anon c" "snd st" rule: createCommit_cases)
    (simp_all add: commit_step_def console_log_def console_warn_def Let_def)

lemma commit_step_warnings:
  "warnings (snd (commit_step h m an ae anon len c st)) =
     warnings (snd st) @
       (case fst (createCommit h m (commit_request h an ae anon c) (snd st)) of
          Inl e \<Rightarrow> [ConsoleWarn (failure_warning c e)]
        | Inr u \<Rightarrow> [])"
  by (cases h m "commit_request h an ae anon c" "snd st" rule: createCommit_cases)
    (simp_all add: commit_step_def console_log_def console_warn_def Let_def warnings_def)

subsection \<open>The whole loop\<close>

lemma attempt_results_length [simp]:
  "length (attempt_results h m an ae anon len cs st) = length cs"
  by (induction cs arbitrary: st) simp_all

lemma commit_loop_frame:
  "env (snd (commit_loop h m an ae anon len cs st)) = env (snd st) \<and>
   paths (snd (commit_loop h m an ae anon len cs st)) = paths (snd st) \<and>
   arrays (snd (commit_loop h m an ae anon len cs st)) = arrays (snd st) \<and>
   cwd (snd (commit_loop h m an ae anon len cs st)) = cwd (snd st) \<and>
   config (snd (commit_loop h m an ae anon len cs st)) = config (snd st)"
  by (induction cs arbitrary: st) (simp_all add: commit_step_frame)

lemma successes_Cons:
  "successes (c # cs) (r # rs) = (if isl r then successes cs rs else c # successes cs rs)"
  by (simp add: successes_def)

lemma failures_Cons:
  "failures (c # cs) (r # rs) =
     (case r of Inl e \<Rightarrow> (c, e) # failures cs rs | Inr u \<Rightarrow> failures cs rs)"
  by (simp add: failures_def split: sum.splits)

lemma commit_loop_history:
  "history (snd (commit_loop h m an ae anon len cs st)) (repositoryPath m) =
     history (snd st) (repositoryPath m) @
       map (\<lambda>c. made_commit h (commit_request h an ae anon c))
         (successes cs (attempt_results h m an ae anon len cs st))"
proof (induction cs arbitrary: st)
  case Nil
  then show ?case by (simp add: successes_def)
next
  case (Cons c cs)
  show ?case
    by (simp add: Cons.IH commit_step_history successes_Cons)
qed

lemma commit_loop_calls:
  "git_calls (snd (commit_loop h m an ae anon len cs st)) =
     git_calls (snd st) @
       map (\<lambda>c. commit_call h m (commit_request h an ae anon c))
         (filter (\<lambda>c. Date_parse h (c_timestamp c) \<noteq> None) cs)"
proof (induction cs arbitrary: st)
  case Nil
  then show ?case by simp
next
  case (Cons c cs)
  show ?case
    by (simp add: Cons.IH commit_step_calls)
qed

lemma commit_loop_warnings:
  "warnings (snd (commit_loop h m an ae anon len cs st)) =
     warnings (snd st) @
       map (\<lambda>ce. ConsoleWarn (failure_warning (fst ce) (snd ce)))
         (failures cs (attempt_results h m an ae anon len cs st))"
proof (induction cs arbitrary: st)
  case Nil
  then show ?case by (simp add: failures_def)
next
  case (Cons c cs)
  show ?case
    by (simp add: Cons.IH commit_step_warnings failures_Cons split: sum.splits)
qed


subsection \<open>The sort\<close>

lemma not_after_timestamp_compare:
  assumes "dayjs_valueOf h (c_timestamp a) \<noteq> None" and "dayjs_valueOf h (c_timestamp b) \<noteq> None"
  shows "not_after (timestamp_compare h a b) \<longleftrightarrow> timestamp_key h a \<le> timestamp_key h b"
  using assms by (auto simp: not_after_def timestamp_compare_def timestamp_key_def)

lemma insert_sorted_insort_key:
  assumes "dayjs_valueOf h (c_timestamp x) \<noteq> None"
    and "\<forall>y \<in> set ys. dayjs_valueOf h (c_timestamp y) \<noteq> None"
  shows "insert_sorted (timestamp_compare h) x ys = insort_key (timestamp_key h) x ys"
  using assms(2)
proof (induction ys)
  case Nil
  then show ?case by simp
next
  case (Cons y ys)
  then show ?case
    using not_after_timestamp_compare [OF assms(1), of y] by simp
qed

lemma array_sort_sort_key:
  assumes "\<forall>c \<in> set cs. dayjs_valueOf h (c_timestamp c) \<noteq> None"
  shows "array_sort (timestamp_compare h) cs = sort_key (timestamp_key h) cs"
  using assms
proof (induction cs)
  case Nil
  then show ?case by (simp add: array_sort_def)
next
  case (Cons c cs)
  then have ih: "array_sort (timestamp_compare h) cs = sort_key (timestamp_key h) cs"
    by simp
  have "\<forall>y \<in> set (sort_key (timestamp_key h) cs). dayjs_valueOf h (c_timestamp y) \<noteq> None"
    using Cons.prems by simp
  then have "insert_sorted (timestamp_compare h) c (sort_key (timestamp_key h) cs) =
             insort_key (timestamp_key h) c (sort_key (timestamp_key h) cs)"
    using Cons.prems insert_sorted_insort_key by simp
  then show ?case
    using ih by (simp add: array_sort_def sort_key_def)
qed

lemma array_sort_length [simp]: "length (array_sort cmp xs) = length xs"
proof -
  have "length (insert_sorted cmp x ys) = Suc (length ys)" for x ys
    by (induction ys) simp_all
  then show ?thesis
    unfolding array_sort_def by (induction xs) simp_all
qed

lemma array_sort_set [simp]: "set (array_sort cmp xs) = set xs"
proof -
  have "set (insert_sorted cmp x ys) = insert x (set ys)" for x ys
    by (induction ys) auto
  then show ?thesis
    unfolding array_sort_def by (induction xs) simp_all
qed

lemma array_sort_mset [simp]: "mset (array_sort cmp xs) = mset xs"
proof -
  have "mset (insert_sorted cmp x ys) = add_mset x (mset ys)" for x ys
    by (induction ys) simp_all
  then show ?thesis
    unfolding array_sort_def by (induction xs) simp_all
qed

lemma sort_by_timestamp_parsed:
  assumes "\<forall>c \<in> set cs. dayjs_valueOf h (c_timestamp c) \<noteq> None"
  shows "sort_by_timestamp h cs = array_sort (timestamp_compare h) cs"
  using assms by (simp add: sort_by_timestamp_def)

lemma sort_by_timestamp_mset:
  assumes "mset (engine_order h cs) = mset cs"
  shows "mset (sort_by_timestamp h cs) = mset cs"
  using assms by (simp add: sort_by_timestamp_def)

subsection \<open>The stages of \<open>format\<close>\<close>

lemma record_call_simps [simp]:
  "env (record_call c w) = env w"
  "cwd (record_call c w) = cwd w"
  "paths (record_call c w) = paths w"
  "history (record_call c w) = history w"
  "config (record_call c w) = config w"
  "console (record_call c w) = console w"
  "arrays (record_call c w) = arrays w"
  "git_calls (record_call c w) = git_calls w @ [c]"
  by (simp_all add: record_call_def)

lemma isGitAvailable_eq:
  "isGitAvailable h w = (version_fails h w = None, record_call GitVersion w)"
  by (simp add: isGitAvailable_def git_version_def split: option.splits)

lemma getCommitCount_eq:
  "getCommitCount h m w =
     (if log_fails h (repositoryPath m) w = None then length (history w (repositoryPath m)) else 0,
      record_call (GitLog (repositoryPath m)) w)"
  by (simp add: getCommitCount_def git_log_def split: option.splits)

lemma export_path_record_call [simp]:
  "export_path (record_call c w) = export_path w"
  "export_manager (record_call c w) = export_manager w"
  "baseline_history (record_call c w) = baseline_history w"
  by (simp_all add: export_path_def export_manager_def baseline_history_def)

lemma git_dir_not_dir: "path_join d ''.git'' \<noteq> d"
  by (simp add: path_join_def)

lemma open_repository_result:
  assumes "open_repository h w = (Inr (m, ic), w3)"
  shows "m = export_manager w \<and> arrays w3 = arrays w \<and> env w3 = env w \<and> cwd w3 = cwd w \<and>
         console w3 = console w \<and> history w3 (export_path w) = baseline_history w \<and>
         commit_calls w3 = commit_calls w \<and> path_join (export_path w) ''.git'' \<in> paths w3"
proof (cases "path_join (export_path w) ''.git'' \<in> paths w")
  case True
  then show ?thesis
    using assms git_dir_not_dir [of "export_path w"]
    by (auto simp: open_repository_def RepositoryManager_new_def initializeRepository_def
        getCommitCount_eq export_manager_def export_path_def baseline_history_def
        commit_calls_def Let_def split: if_splits)
next
  case False
  then show ?thesis
    using assms git_dir_not_dir [of "export_path w"]
    by (auto simp: open_repository_def RepositoryManager_new_def initializeRepository_def
        git_init_def git_addConfig_def export_manager_def export_path_def baseline_history_def
        commit_calls_def Let_def split: if_splits option.splits)
qed

lemma sorted_copy_result:
  assumes "contributions < length (arrays w)"
  shows "sorted_copy h contributions w =
           (length (arrays w),
            w\<lparr>arrays := arrays w @ [sort_by_timestamp h (arrays w ! contributions)]\<rparr>)"
  using assms by (simp add: sorted_copy_def Let_def nth_append)


subsection \<open>A whole call of \<open>format\<close>\<close>

lemma format_request_eq:
  "format_request h opts w =
     commit_request h (env_or w ''GIT_AUTHOR_NAME'' defaultAuthorName)
       (env_or w ''GIT_AUTHOR_EMAIL'' defaultAuthorEmail) (anonymize_flag opts)"
  by (rule ext) (simp add: format_request_def)

lemma env_or_record_call [simp]: "env_or (record_call c w) name d = env_or w name d"
  by (simp add: env_or_def)

lemma commit_calls_record_call [simp]:
  "commit_calls (record_call c w) = commit_calls w @ filter is_commit_call [c]"
  by (simp add: commit_calls_def)

lemma warnings_record_call [simp]: "warnings (record_call c w) = warnings w"
  by (simp add: warnings_def)

lemma filter_commit_calls_map [simp]:
  "filter is_commit_call (map (\<lambda>c. commit_call h m (f c)) xs) = map (\<lambda>c. commit_call h m (f c)) xs"
  by (induction xs) (simp_all add: commit_call_def)

lemma format_unfold:
  assumes avail: "version_fails h w = None"
    and valid: "cref < length (arrays w)"
    and ne: "arrays w ! cref \<noteq> []"
    and opened: "open_repository h (record_call GitVersion w) = (Inr (m, ic), w3)"
    and sorted': "sorted' = sort_by_timestamp h (arrays w ! cref)"
    and w4: "w4 = w3\<lparr>arrays := arrays w3 @ [sorted']\<rparr>"
    and an: "an = env_or w ''GIT_AUTHOR_NAME'' defaultAuthorName"
    and ae: "ae = env_or w ''GIT_AUTHOR_EMAIL'' defaultAuthorEmail"
    and st6: "st6 = commit_loop h m an ae (anonymize_flag opts) (length sorted') sorted' (0, w4)"
  shows "format h cref opts w =
           (Inr \<lparr>content = join_str [CHR 0x0A]
                   (summary_lines (export_path w) (fst (getCommitCount h m (snd st6)))
                      (int (fst (getCommitCount h m (snd st6))) - int ic)
                      (length (arrays w ! cref)) an ae opts)\<rparr>,
            snd (getCommitCount h m (snd st6)))"
    and "format_attempts h cref opts w =
           attempt_results h m an ae (anonymize_flag opts) (length sorted') sorted' (0, w4)"
    and "format_counts h cref opts w = (ic, fst (getCommitCount h m (snd st6)))"
proof -
  let ?w0 = "record_call GitVersion w"
  have res: "m = export_manager w" "arrays w3 = arrays w"
    using open_repository_result [OF opened] by simp_all
  have valid3: "cref < length (arrays w3)" using valid res by simp
  have copy: "sorted_copy h cref w3 = (length (arrays w3), w4)"
    using sorted_copy_result [OF valid3] sorted' w4 res by simp
  have at: "arrays w4 ! length (arrays w3) = sorted'"
    using w4 by simp
  have cc: "create_commits h m an ae (anonymize_flag opts) cref w3 = st6"
    using copy at st6 by (simp add: create_commits_def)
  have "arrays (snd st6) = arrays w4"
    unfolding st6 using commit_loop_frame [of h m an ae "anonymize_flag opts" "length sorted'" sorted' "(0, w4)"]
    by simp
  then have keep: "arrays (snd (getCommitCount h m (snd st6))) ! cref = arrays w ! cref"
    using w4 valid3 res by (simp add: getCommitCount_eq nth_append)
  have path: "getRepositoryPath m = export_path w"
    using res by (simp add: getRepositoryPath_def export_manager_def)
  show "format h cref opts w =
           (Inr \<lparr>content = join_str [CHR 0x0A]
                   (summary_lines (export_path w) (fst (getCommitCount h m (snd st6)))
                      (int (fst (getCommitCount h m (snd st6))) - int ic)
                      (length (arrays w ! cref)) an ae opts)\<rparr>,
            snd (getCommitCount h m (snd st6)))"
    using avail valid ne opened cc keep path an ae
    by (simp add: format_def isGitAvailable_eq Let_def case_prod_beta)
  show "format_attempts h cref opts w =
           attempt_results h m an ae (anonymize_flag opts) (length sorted') sorted' (0, w4)"
    using avail valid ne opened copy at an ae
    by (simp add: format_attempts_def isGitAvailable_eq)
  show "format_counts h cref opts w = (ic, fst (getCommitCount h m (snd st6)))"
    using avail opened cc an ae
    by (simp add: format_counts_def isGitAvailable_eq case_prod_beta)
qed

lemma format_returns_cases:
  assumes "format h cref opts w = (Inr res, w')"
  obtains (empty) "version_fails h w = None" "cref < length (arrays w)" "arrays w ! cref = []"
      "w' = record_call GitVersion w"
      "res = \<lparr>content = ''No contributions to export. The repository was not created '' @
                         ''because there are no contributions in this range.''\<rparr>"
  | (export) m ic w3 where "version_fails h w = None" "cref < length (arrays w)"
      "arrays w ! cref \<noteq> []" "open_repository h (record_call GitVersion w) = (Inr (m, ic), w3)"
proof (cases "version_fails h w = None \<and> cref < length (arrays w)")
  case False
  then show ?thesis
    using assms by (auto simp: format_def isGitAvailable_eq split: if_splits)
next
  case True
  show ?thesis
  proof (cases "arrays w ! cref = []")
    case e: True
    then show ?thesis
      using assms True empty by (auto simp: format_def isGitAvailable_eq)
  next
    case ne: False
    obtain r w3 where o: "open_repository h (record_call GitVersion w) = (r, w3)"
      by (cases "open_repository h (record_call GitVersion w)")
    show ?thesis
    proof (cases r)
      case (Inl e)
      then show ?thesis
        using assms True ne o by (simp add: format_def isGitAvailable_eq Let_def)
    next
      case (Inr mic)
      then obtain m ic where "r = Inr (m, ic)" by (cases mic) simp
      then show ?thesis using export True ne o by blast
    qed
  qed
qed

lemma format_final_world:
  assumes avail: "version_fails h w = None"
    and valid: "cref < length (arrays w)"
    and ne: "arrays w ! cref \<noteq> []"
    and opened: "open_repository h (record_call GitVersion w) = (Inr (m, ic), w3)"
    and sorted': "sorted' = sort_by_timestamp h (arrays w ! cref)"
    and rs: "rs = format_attempts h cref opts w"
    and w': "w' = snd (format h cref opts w)"
  shows "history w' (export_path w) =
           baseline_history w @ map (\<lambda>c. made_commit h (format_request h opts w c)) (successes sorted' rs)"
    and "warnings w' =
           warnings w @ map (\<lambda>ce. ConsoleWarn (failure_warning (fst ce) (snd ce))) (failures sorted' rs)"
    and "commit_calls w' =
           commit_calls w @
             map (\<lambda>c. commit_call h (export_manager w) (format_request h opts w c))
               (filter (\<lambda>c. Date_parse h (c_timestamp c) \<noteq> None) sorted')"
    and "arrays w' ! cref = arrays w ! cref"
    and "length rs = length sorted'"
    and "\<exists>res. fst (format h cref opts w) = Inr res"
proof -
  define an where "an = env_or w ''GIT_AUTHOR_NAME'' defaultAuthorName"
  define ae where "ae = env_or w ''GIT_AUTHOR_EMAIL'' defaultAuthorEmail"
  define w4 where "w4 = w3\<lparr>arrays := arrays w3 @ [sorted']\<rparr>"
  define st6 where "st6 = commit_loop h m an ae (anonymize_flag opts) (length sorted') sorted' (0, w4)"
  note u = format_unfold [OF avail valid ne opened sorted' w4_def an_def ae_def st6_def]
  have req: "format_request h opts w = commit_request h an ae (anonymize_flag opts)"
    by (simp add: format_request_eq an_def ae_def)
  have res: "m = export_manager w" "arrays w3 = arrays w" "console w3 = console w"
      "history w3 (export_path w) = baseline_history w" "commit_calls w3 = commit_calls w"
    using open_repository_result [OF opened] by simp_all
  have rp: "repositoryPath m = export_path w"
    using res(1) by (simp add: export_manager_def)
  have w'eq: "w' = record_call (GitLog (repositoryPath m)) (snd st6)"
    using w' u(1) by (simp add: getCommitCount_eq)
  have rs': "rs = attempt_results h m an ae (anonymize_flag opts) (length sorted') sorted' (0, w4)"
    using rs u(2) by simp
  show "history w' (export_path w) =
           baseline_history w @ map (\<lambda>c. made_commit h (format_request h opts w c)) (successes sorted' rs)"
    using commit_loop_history [of h m an ae "anonymize_flag opts" "length sorted'" sorted' "(0, w4)"]
    by (simp add: w'eq st6_def rs' req rp w4_def res(2-5))
  show "warnings w' =
           warnings w @ map (\<lambda>ce. ConsoleWarn (failure_warning (fst ce) (snd ce))) (failures sorted' rs)"
    using commit_loop_warnings [of h m an ae "anonymize_flag opts" "length sorted'" sorted' "(0, w4)"]
    by (simp add: w'eq st6_def rs' w4_def res(2-5) warnings_def)
  show "commit_calls w' =
           commit_calls w @
             map (\<lambda>c. commit_call h (export_manager w) (format_request h opts w c))
               (filter (\<lambda>c. Date_parse h (c_timestamp c) \<noteq> None) sorted')"
    using commit_loop_calls [of h m an ae "anonymize_flag opts" "length sorted'" sorted' "(0, w4)"]
      res(5)
    by (simp add: w'eq st6_def req res(1) [symmetric] w4_def commit_calls_def)
  have "arrays (snd st6) = arrays w4"
    unfolding st6_def
    using commit_loop_frame [of h m an ae "anonymize_flag opts" "length sorted'" sorted' "(0, w4)"]
    by simp
  then show "arrays w' ! cref = arrays w ! cref"
    using valid res(2) by (simp add: w'eq w4_def nth_append)
  show "length rs = length sorted'"
    by (simp add: rs')
  show "\<exists>res. fst (format h cref opts w) = Inr res"
    using u(1) by simp
qed

text \<open>
  C7.  With the tool available and an empty batch, \<open>format\<close> returns the note that there is
  nothing to export, and the world after the call is the world before it with the version
  probe added to the tool calls: no directory is created, no repository is initialised, no
  commit is attempted.
\<close>

theorem format_empty_batch:
  assumes "version_fails h w = None" and "cref < length (arrays w)" and "arrays w ! cref = []"
  shows "format h cref opts w =
           (Inr \<lparr>content = ''No contributions to export. The repository was not created '' @
                            ''because there are no contributions in this range.''\<rparr>,
            w\<lparr>git_calls := git_calls w @ [GitVersion]\<rparr>) \<and>
         paths (snd (format h cref opts w)) = paths w \<and>
         history (snd (format h cref opts w)) = history w \<and>
         config (snd (format h cref opts w)) = config w \<and>
         commit_calls (snd (format h cref opts w)) = commit_calls w \<and>
         sublist ''No contributions to export'' (content (projr (fst (format h cref opts w))))"
proof -
  have f: "format h cref opts w =
           (Inr \<lparr>content = ''No contributions to export. The repository was not created '' @
                            ''because there are no contributions in this range.''\<rparr>,
            w\<lparr>git_calls := git_calls w @ [GitVersion]\<rparr>)"
    using assms by (simp add: format_def isGitAvailable_eq record_call_def)
  have "prefix ''No contributions to export''
      (''No contributions to export. The repository was not created '' @
       ''because there are no contributions in this range.'')"
    by simp
  then have "sublist ''No contributions to export''
      (''No contributions to export. The repository was not created '' @
       ''because there are no contributions in this range.'')"
    by (rule prefix_imp_sublist)
  then show ?thesis
    unfolding f by (simp add: commit_calls_def)
qed

theorem format_empty_batch_witness:
  "version_fails example_host (example_world\<lparr>arrays := [[]]\<rparr>) = None \<and>
   0 < length (arrays (example_world\<lparr>arrays := [[]]\<rparr>)) \<and>
   arrays (example_world\<lparr>arrays := [[]]\<rparr>) ! 0 = [] \<and>
   paths (snd (format example_host 0 example_options (example_world\<lparr>arrays := [[]]\<rparr>))) =
     {''/work'', ''/work/.git''} \<and>
   git_calls (snd (format example_host 0 example_options (example_world\<lparr>arrays := [[]]\<rparr>))) =
     [GitVersion]"
proof -
  let ?w = "example_world\<lparr>arrays := [[]]\<rparr>"
  have a: "version_fails example_host ?w = None" by (simp add: example_host_def)
  have b: "0 < length (arrays ?w)" by simp
  have c: "arrays ?w ! 0 = []" by simp
  show ?thesis
    using a b c format_empty_batch [OF a b c, of example_options]
    by (simp add: example_world_def)
qed


lemma format_attempts_reach_loop:
  assumes "format_attempts h cref opts w \<noteq> []"
  obtains m ic w3 where "version_fails h w = None" "cref < length (arrays w)"
      "arrays w ! cref \<noteq> []" "open_repository h (record_call GitVersion w) = (Inr (m, ic), w3)"
proof -
  have a: "version_fails h w = None" "cref < length (arrays w)" "arrays w ! cref \<noteq> []"
    using assms by (auto simp: format_attempts_def isGitAvailable_eq split: if_splits)
  obtain r w3 where o: "open_repository h (record_call GitVersion w) = (r, w3)"
    by (cases "open_repository h (record_call GitVersion w)")
  show ?thesis
  proof (cases r)
    case (Inl e)
    then show ?thesis
      using assms a o by (simp add: format_attempts_def isGitAvailable_eq)
  next
    case (Inr mic)
    then obtain m ic where "r = Inr (m, ic)" by (cases mic) simp
    then show ?thesis using that a o by blast
  qed
qed

lemma failures_length:
  assumes "length rs = length cs"
  shows "length (failures cs rs) = length (filter isl rs)"
  using assms by (induction rs cs rule: list_induct2) (simp_all add: failures_def)

lemma successes_length:
  assumes "length rs = length cs"
  shows "length (successes cs rs) + length (filter isl rs) = length cs"
  using assms by (induction rs cs rule: list_induct2) (simp_all add: successes_def)

lemma failures_subset:
  "(c, e) \<in> set (failures cs rs) \<Longrightarrow> c \<in> set cs"
  by (auto simp: failures_def dest: set_zip_leftD)

lemma one_failure:
  assumes "length rs = length cs" and "length (filter isl rs) = 1"
  shows "length (successes cs rs) = length cs - 1 \<and>
         (\<exists>c e. failures cs rs = [(c, e)] \<and> c \<in> set cs)"
proof -
  have "length (failures cs rs) = 1"
    using failures_length [OF assms(1)] assms(2) by simp
  then obtain ce where "failures cs rs = [ce]"
    by (cases "failures cs rs") auto
  then obtain c e where f: "failures cs rs = [(c, e)]"
    by (cases ce) simp
  then have "c \<in> set cs"
    using failures_subset [of c e cs rs] by simp
  then show ?thesis
    using f successes_length [OF assms(1)] assms(2) by auto
qed

subsection \<open>The summary\<close>

lemma part_sublist_join:
  assumes "l \<in> set ls" and "l = ps @ x @ ss"
  shows "sublist x (join_str sep ls)"
  using assms(1)
proof (induction sep ls rule: join_str.induct)
  case (1 sep)
  then show ?case by simp
next
  case (2 sep y)
  then have "join_str sep [y] = ps @ x @ ss"
    using assms(2) by simp
  then show ?case
    by (simp only: sublist_appendI)
next
  case (3 sep y z zs)
  show ?case
  proof (cases "l = y")
    case True
    then have "join_str sep (y # z # zs) = ps @ x @ (ss @ sep @ join_str sep (z # zs))"
      using assms(2) by simp
    then show ?thesis
      by (simp only: sublist_appendI)
  next
    case False
    then have "sublist x (join_str sep (z # zs))"
      using 3 by simp
    then obtain qs rs where "join_str sep (z # zs) = qs @ x @ rs"
      by (auto simp: sublist_def)
    then have "join_str sep (y # z # zs) = (y @ sep @ qs) @ x @ rs"
      by simp
    then show ?thesis
      by (simp only: sublist_appendI)
  qed
qed

lemma mem_sublist_join:
  assumes "x \<in> set xs"
  shows "sublist x (join_str sep xs)"
  using part_sublist_join [OF assms, of "[]" x "[]"] by simp

lemma summary_lines_eq:
  "summary_lines p t n len an ae opts =
     [success_banner, ''Repository location: '' @ p, ''Total commits: '' @ decimal t,
      ''New commits created: '' @ string_of_int n, ''Contributions exported: '' @ decimal len,
      ''Author: '' @ an @ '' <'' @ ae @ ''>''] @
     (if opt_anonymize opts = Some True then [''Anonymization: enabled''] else []) @
     push_instructions"
  by (simp add: summary_lines_def anonymize_flag_def)

lemma success_banner_parts:
  "success_banner =
     [CHR 0x0A, CHR 0xE2, CHR 0x9C, CHR 0x85, CHR 0x20] @ ''Git export completed successfully!'' @
     [CHR 0x0A]"
  by (simp add: success_banner_def)

lemma format_summary:
  assumes avail: "version_fails h w = None"
    and valid: "cref < length (arrays w)"
    and ne: "arrays w ! cref \<noteq> []"
    and opened: "open_repository h (record_call GitVersion w) = (Inr (m, ic), w3)"
  shows "fst (format h cref opts w) =
           Inr \<lparr>content = join_str [CHR 0x0A]
                  ([success_banner,
                    ''Repository location: '' @ export_path w,
                    ''Total commits: '' @ decimal (snd (format_counts h cref opts w)),
                    ''New commits created: '' @
                       string_of_int (int (snd (format_counts h cref opts w)) -
                                      int (fst (format_counts h cref opts w))),
                    ''Contributions exported: '' @ decimal (length (arrays w ! cref)),
                    ''Author: '' @ env_or w ''GIT_AUTHOR_NAME'' defaultAuthorName @ '' <'' @
                       env_or w ''GIT_AUTHOR_EMAIL'' defaultAuthorEmail @ ''>''] @
                   (if opt_anonymize opts = Some True then [''Anonymization: enabled''] else []) @
                   push_instructions)\<rparr>"
proof -
  note u = format_unfold [OF avail valid ne opened refl refl refl refl refl, of opts]
  show ?thesis
    unfolding u(1) u(3) by (simp add: summary_lines_eq)
qed

lemma open_repository_baseline_exact:
  assumes "open_repository h w = (Inr (m, ic), w3)"
    and "\<forall>v. log_fails h (export_path w) v = None"
  shows "ic = length (baseline_history w)"
  using assms git_dir_not_dir [of "export_path w"]
  by (auto simp: open_repository_def RepositoryManager_new_def initializeRepository_def
      git_init_def git_addConfig_def getCommitCount_eq baseline_history_def export_path_def
      Let_def split: if_splits option.splits)

lemma format_counts_exact:
  assumes avail: "version_fails h w = None"
    and valid: "cref < length (arrays w)"
    and ne: "arrays w ! cref \<noteq> []"
    and opened: "open_repository h (record_call GitVersion w) = (Inr (m, ic), w3)"
    and quiet: "\<forall>v. log_fails h (export_path w) v = None"
  shows "format_counts h cref opts w =
           (length (baseline_history w),
            length (history (snd (format h cref opts w)) (export_path w)))"
proof -
  note u = format_unfold [OF avail valid ne opened refl refl refl refl refl, of opts]
  have m: "repositoryPath m = export_path w"
    using open_repository_result [OF opened] by (simp add: export_manager_def)
  have "ic = length (baseline_history w)"
    using open_repository_baseline_exact [OF opened] quiet by simp
  then show ?thesis
    unfolding u(1) u(3) using quiet by (simp add: getCommitCount_eq m)
qed

text \<open>
  C2.  Take a call of \<open>format\<close> in which exactly one of the commit attempts fails, on an engine
  whose sort returns the elements it was given, as the language requires of every engine.
  Then the loop makes one attempt for each of the N contributions; the repository holds the
  commits of the N - 1 others on top of what it held, in the order of the loop; exactly one
  warning is recorded, and it names the type and the timestamp of the failed contribution;
  and the call returns the summary, with its banner of success, the number N of contributions
  and the two counts.  Where the count query of the tool does not fail, the counts are the
  baseline and the baseline plus N - 1, so that the summary reports N - 1 new commits.
\<close>

theorem format_tolerates_one_failure:
  assumes "length (filter isl (format_attempts h cref opts w)) = 1"
    and "mset (engine_order h (arrays w ! cref)) = mset (arrays w ! cref)"
  shows "length (format_attempts h cref opts w) = length (arrays w ! cref) \<and>
         history (snd (format h cref opts w)) (export_path w) =
           baseline_history w @
             map (\<lambda>c. made_commit h (format_request h opts w c))
               (successes (sort_by_timestamp h (arrays w ! cref))
                  (format_attempts h cref opts w)) \<and>
         length (successes (sort_by_timestamp h (arrays w ! cref))
                   (format_attempts h cref opts w)) = length (arrays w ! cref) - 1 \<and>
         (\<exists>c e. failures (sort_by_timestamp h (arrays w ! cref))
                    (format_attempts h cref opts w) = [(c, e)] \<and>
                c \<in> set (arrays w ! cref) \<and>
                warnings (snd (format h cref opts w)) =
                  warnings w @
                    [ConsoleWarn [''Warning: Failed to create commit for '' @ c_type c @ '' at '' @
                                    c_timestamp c @ '':'', error_message e]]) \<and>
         fst (format h cref opts w) =
           Inr \<lparr>content = join_str [CHR 0x0A]
                  ([success_banner,
                    ''Repository location: '' @ export_path w,
                    ''Total commits: '' @ decimal (snd (format_counts h cref opts w)),
                    ''New commits created: '' @
                       string_of_int (int (snd (format_counts h cref opts w)) -
                                      int (fst (format_counts h cref opts w))),
                    ''Contributions exported: '' @ decimal (length (arrays w ! cref)),
                    ''Author: '' @ env_or w ''GIT_AUTHOR_NAME'' defaultAuthorName @ '' <'' @
                       env_or w ''GIT_AUTHOR_EMAIL'' defaultAuthorEmail @ ''>''] @
                   (if opt_anonymize opts = Some True then [''Anonymization: enabled''] else []) @
                   push_instructions)\<rparr> \<and>
         sublist ''Git export completed successfully!''
           (content (projr (fst (format h cref opts w)))) \<and>
         sublist (''Contributions exported: '' @ decimal (length (arrays w ! cref)))
           (content (projr (fst (format h cref opts w)))) \<and>
         ((\<forall>v. log_fails h (export_path w) v = None) \<longrightarrow>
            format_counts h cref opts w =
              (length (baseline_history w),
               length (baseline_history w) + (length (arrays w ! cref) - 1)))"
proof -
  let ?cs = "arrays w ! cref"
  let ?rs = "format_attempts h cref opts w"
  let ?sorted = "sort_by_timestamp h ?cs"
  have "?rs \<noteq> []" using assms(1) by auto
  then obtain m ic w3 where r: "version_fails h w = None" "cref < length (arrays w)"
      "arrays w ! cref \<noteq> []" "open_repository h (record_call GitVersion w) = (Inr (m, ic), w3)"
    by (rule format_attempts_reach_loop)
  note fw = format_final_world [OF r refl refl refl, of opts]
  have perm: "mset ?sorted = mset ?cs"
    using assms(2) by (rule sort_by_timestamp_mset)
  have sz: "length ?sorted = length ?cs"
    using perm by (rule mset_eq_length)
  have st: "set ?sorted = set ?cs"
    using perm by (rule mset_eq_setD)
  have len: "length ?rs = length ?sorted"
    using fw(5) .
  obtain c e where f: "failures ?sorted ?rs = [(c, e)]" "c \<in> set ?sorted"
    and s: "length (successes ?sorted ?rs) = length ?sorted - 1"
    using one_failure [OF len assms(1)] by blast
  have attempts: "length ?rs = length ?cs"
    using len sz by simp
  have hist: "history (snd (format h cref opts w)) (export_path w) =
      baseline_history w @ map (\<lambda>c. made_commit h (format_request h opts w c)) (successes ?sorted ?rs)"
    using fw(1) .
  have made: "length (successes ?sorted ?rs) = length ?cs - 1"
    using s sz by simp
  have "warnings (snd (format h cref opts w)) =
          warnings w @ [ConsoleWarn (failure_warning c e)]"
    using fw(2) f(1) by simp
  then have warned: "\<exists>c e. failures ?sorted ?rs = [(c, e)] \<and> c \<in> set ?cs \<and>
      warnings (snd (format h cref opts w)) =
        warnings w @
          [ConsoleWarn [''Warning: Failed to create commit for '' @ c_type c @ '' at '' @
                          c_timestamp c @ '':'', error_message e]]"
    using f st by (auto simp: failure_warning_def)
  note ret = format_summary [OF r, of opts]
  define ls where "ls =
      [success_banner,
       ''Repository location: '' @ export_path w,
       ''Total commits: '' @ decimal (snd (format_counts h cref opts w)),
       ''New commits created: '' @
          string_of_int (int (snd (format_counts h cref opts w)) -
                         int (fst (format_counts h cref opts w))),
       ''Contributions exported: '' @ decimal (length (arrays w ! cref)),
       ''Author: '' @ env_or w ''GIT_AUTHOR_NAME'' defaultAuthorName @ '' <'' @
          env_or w ''GIT_AUTHOR_EMAIL'' defaultAuthorEmail @ ''>''] @
      (if opt_anonymize opts = Some True then [''Anonymization: enabled''] else []) @
      push_instructions"
  have c: "content (projr (fst (format h cref opts w))) = join_str [CHR 0x0A] ls"
    unfolding ret ls_def by simp
  have "success_banner \<in> set ls"
    by (simp add: ls_def)
  then have banner: "sublist ''Git export completed successfully!''
      (content (projr (fst (format h cref opts w))))"
    unfolding c using success_banner_parts by (rule part_sublist_join)
  have "''Contributions exported: '' @ decimal (length ?cs) \<in> set ls"
    by (simp add: ls_def)
  then have exported: "sublist (''Contributions exported: '' @ decimal (length ?cs))
      (content (projr (fst (format h cref opts w))))"
    unfolding c by (rule mem_sublist_join)
  have counts: "(\<forall>v. log_fails h (export_path w) v = None) \<longrightarrow>
      format_counts h cref opts w =
        (length (baseline_history w), length (baseline_history w) + (length ?cs - 1))"
  proof
    assume quiet: "\<forall>v. log_fails h (export_path w) v = None"
    show "format_counts h cref opts w =
        (length (baseline_history w), length (baseline_history w) + (length ?cs - 1))"
      unfolding format_counts_exact [OF r quiet] hist by (simp add: made)
  qed
  from attempts hist made warned ret banner exported counts show ?thesis
    by blast
qed

text \<open>
  C4.  Where every timestamp of the batch parses, \<open>format\<close> asks the tool for the commits in
  ascending order of timestamp, contributions with equal timestamps in their order in the
  input, and the caller's array is as it was.  The commits asked for are those of the sorted
  copy whose timestamp is a valid date, which is all of them when \<^verbatim>\<open>Date\<close> parses what
  \<^verbatim>\<open>dayjs\<close> parses.
\<close>

theorem format_commits_in_timestamp_order:
  assumes "format h cref opts w = (Inr res, w')"
    and "\<forall>c \<in> set (arrays w ! cref). dayjs_valueOf h (c_timestamp c) \<noteq> None"
  shows "commit_calls w' =
           commit_calls w @
             map (\<lambda>c. commit_call h (export_manager w) (format_request h opts w c))
               (filter (\<lambda>c. Date_parse h (c_timestamp c) \<noteq> None)
                  (array_sort (timestamp_compare h) (arrays w ! cref))) \<and>
         sorted (map (timestamp_key h) (array_sort (timestamp_compare h) (arrays w ! cref))) \<and>
         mset (array_sort (timestamp_compare h) (arrays w ! cref)) = mset (arrays w ! cref) \<and>
         (\<forall>k. filter (\<lambda>c. timestamp_key h c = k) (array_sort (timestamp_compare h) (arrays w ! cref)) =
              filter (\<lambda>c. timestamp_key h c = k) (arrays w ! cref)) \<and>
         arrays w' ! cref = arrays w ! cref"
proof -
  let ?cs = "arrays w ! cref"
  have srt: "array_sort (timestamp_compare h) ?cs = sort_key (timestamp_key h) ?cs"
    using assms(2) by (rule array_sort_sort_key)
  have order: "sorted (map (timestamp_key h) (array_sort (timestamp_compare h) ?cs)) \<and>
         mset (array_sort (timestamp_compare h) ?cs) = mset ?cs \<and>
         (\<forall>k. filter (\<lambda>c. timestamp_key h c = k) (array_sort (timestamp_compare h) ?cs) =
              filter (\<lambda>c. timestamp_key h c = k) ?cs)"
    unfolding srt by (simp add: sort_key_stable)
  from assms(1) show ?thesis
  proof (cases rule: format_returns_cases)
    case empty
    then show ?thesis
      using order by (simp add: array_sort_def)
  next
    case (export m ic w3)
    have w': "w' = snd (format h cref opts w)" using assms(1) by simp
    note fw = format_final_world [OF export sort_by_timestamp_parsed [OF assms(2), symmetric] refl w']
    show ?thesis
      using fw(3,4) order by simp
  qed
qed

text \<open>
  C9, amended.  The summary of a call of \<open>format\<close> on a non-empty batch is these lines, joined by
  line feeds: the banner, the repository location, the total count, the count of new commits,
  which is the re-queried total minus the baseline, the number of contributions, the author's
  name and address, the line \<^verbatim>\<open>Anonymization: enabled\<close> where anonymization is enabled and no
  line in its place where it is not, and the five lines of push instructions.  So each of
  these facts is a part of the summary, anonymization only where it is enabled.  Where the
  count query of the tool does not fail, the baseline and the total are the numbers of commits
  of the repository before and after the call.
\<close>

theorem format_summary_contents:
  assumes "format h cref opts w = (Inr res, w')" and "arrays w ! cref \<noteq> []"
  shows "content res =
           join_str [CHR 0x0A]
             ([success_banner,
               ''Repository location: '' @ export_path w,
               ''Total commits: '' @ decimal (snd (format_counts h cref opts w)),
               ''New commits created: '' @
                  string_of_int (int (snd (format_counts h cref opts w)) -
                                 int (fst (format_counts h cref opts w))),
               ''Contributions exported: '' @ decimal (length (arrays w ! cref)),
               ''Author: '' @ env_or w ''GIT_AUTHOR_NAME'' defaultAuthorName @ '' <'' @
                  env_or w ''GIT_AUTHOR_EMAIL'' defaultAuthorEmail @ ''>''] @
              (if opt_anonymize opts = Some True then [''Anonymization: enabled''] else []) @
              [[CHR 0x0A] @ ''To push to GitHub:'',
               ''  cd '' @ outputDirectory,
               ''  git remote add origin git@github.com:username/activity-showcase.git'',
               ''  git branch -M main'',
               ''  git push -u origin main --force'']) \<and>
         sublist ''Git export completed successfully!'' (content res) \<and>
         sublist (''Repository location: '' @ export_path w) (content res) \<and>
         sublist (''Total commits: '' @ decimal (snd (format_counts h cref opts w))) (content res) \<and>
         sublist (''New commits created: '' @
                    string_of_int (int (snd (format_counts h cref opts w)) -
                                   int (fst (format_counts h cref opts w)))) (content res) \<and>
         sublist (''Contributions exported: '' @ decimal (length (arrays w ! cref))) (content res) \<and>
         sublist (''Author: '' @ env_or w ''GIT_AUTHOR_NAME'' defaultAuthorName @ '' <'' @
                    env_or w ''GIT_AUTHOR_EMAIL'' defaultAuthorEmail @ ''>'') (content res) \<and>
         (opt_anonymize opts = Some True \<longrightarrow> sublist ''Anonymization: enabled'' (content res)) \<and>
         sublist ''To push to GitHub:'' (content res) \<and>
         sublist ''git push -u origin main --force'' (content res) \<and>
         ((\<forall>v. log_fails h (export_path w) v = None) \<longrightarrow>
            format_counts h cref opts w =
              (length (baseline_history w), length (history w' (export_path w))))"
proof -
  from assms(1) obtain m ic w3 where r: "version_fails h w = None" "cref < length (arrays w)"
      "arrays w ! cref \<noteq> []" "open_repository h (record_call GitVersion w) = (Inr (m, ic), w3)"
    using assms(2) by (cases rule: format_returns_cases) blast+
  define ls where "ls =
      [success_banner,
       ''Repository location: '' @ export_path w,
       ''Total commits: '' @ decimal (snd (format_counts h cref opts w)),
       ''New commits created: '' @
          string_of_int (int (snd (format_counts h cref opts w)) -
                         int (fst (format_counts h cref opts w))),
       ''Contributions exported: '' @ decimal (length (arrays w ! cref)),
       ''Author: '' @ env_or w ''GIT_AUTHOR_NAME'' defaultAuthorName @ '' <'' @
          env_or w ''GIT_AUTHOR_EMAIL'' defaultAuthorEmail @ ''>''] @
      (if opt_anonymize opts = Some True then [''Anonymization: enabled''] else []) @
      [[CHR 0x0A] @ ''To push to GitHub:'',
       ''  cd '' @ outputDirectory,
       ''  git remote add origin git@github.com:username/activity-showcase.git'',
       ''  git branch -M main'',
       ''  git push -u origin main --force'']"
  have "fst (format h cref opts w) = Inr \<lparr>content = join_str [CHR 0x0A] ls\<rparr>"
    unfolding format_summary [OF r, of opts] ls_def push_instructions_def by (rule refl)
  then have c: "content res = join_str [CHR 0x0A] ls"
    using assms(1) by simp
  have w': "w' = snd (format h cref opts w)"
    using assms(1) by simp
  have l1: "success_banner \<in> set ls"
    and l2: "''Repository location: '' @ export_path w \<in> set ls"
    and l3: "''Total commits: '' @ decimal (snd (format_counts h cref opts w)) \<in> set ls"
    and l4: "''New commits created: '' @
               string_of_int (int (snd (format_counts h cref opts w)) -
                              int (fst (format_counts h cref opts w))) \<in> set ls"
    and l5: "''Contributions exported: '' @ decimal (length (arrays w ! cref)) \<in> set ls"
    and l6: "''Author: '' @ env_or w ''GIT_AUTHOR_NAME'' defaultAuthorName @ '' <'' @
               env_or w ''GIT_AUTHOR_EMAIL'' defaultAuthorEmail @ ''>'' \<in> set ls"
    and l8: "[CHR 0x0A] @ ''To push to GitHub:'' \<in> set ls"
    and l9: "''  git push -u origin main --force'' \<in> set ls"
    by (simp_all add: ls_def)
  have l7: "opt_anonymize opts = Some True \<longrightarrow> ''Anonymization: enabled'' \<in> set ls"
    by (simp add: ls_def)
  have p8: "[CHR 0x0A] @ ''To push to GitHub:'' = [CHR 0x0A] @ ''To push to GitHub:'' @ []"
    and p9: "''  git push -u origin main --force'' = ''  '' @ ''git push -u origin main --force'' @ []"
    by simp_all
  have counts: "(\<forall>v. log_fails h (export_path w) v = None) \<longrightarrow>
      format_counts h cref opts w =
        (length (baseline_history w), length (history w' (export_path w)))"
    unfolding w' using format_counts_exact [OF r, of opts] by blast
  have s1: "sublist ''Git export completed successfully!'' (content res)"
    unfolding c using l1 success_banner_parts by (rule part_sublist_join)
  have s2: "sublist (''Repository location: '' @ export_path w) (content res)"
    unfolding c using l2 by (rule mem_sublist_join)
  have s3: "sublist (''Total commits: '' @ decimal (snd (format_counts h cref opts w))) (content res)"
    unfolding c using l3 by (rule mem_sublist_join)
  have s4: "sublist (''New commits created: '' @
                    string_of_int (int (snd (format_counts h cref opts w)) -
                                   int (fst (format_counts h cref opts w)))) (content res)"
    unfolding c using l4 by (rule mem_sublist_join)
  have s5: "sublist (''Contributions exported: '' @ decimal (length (arrays w ! cref))) (content res)"
    unfolding c using l5 by (rule mem_sublist_join)
  have s6: "sublist (''Author: '' @ env_or w ''GIT_AUTHOR_NAME'' defaultAuthorName @ '' <'' @
                    env_or w ''GIT_AUTHOR_EMAIL'' defaultAuthorEmail @ ''>'') (content res)"
    unfolding c using l6 by (rule mem_sublist_join)
  have s7: "opt_anonymize opts = Some True \<longrightarrow> sublist ''Anonymization: enabled'' (content res)"
    unfolding c using l7 mem_sublist_join by blast
  have s8: "sublist ''To push to GitHub:'' (content res)"
    unfolding c using l8 p8 by (rule part_sublist_join)
  have s9: "sublist ''git push -u origin main --force'' (content res)"
    unfolding c using l9 p9 by (rule part_sublist_join)
  from c s1 s2 s3 s4 s5 s6 s7 s8 s9 counts show ?thesis
    unfolding ls_def by blast
qed


subsection \<open>Calls in which the tool never fails, and the examples\<close>

lemma open_repository_succeeds:
  assumes "\<forall>d v. init_fails h d v = None" and "\<forall>d v. addConfig_fails h d v = None"
  shows "\<exists>ic w3. open_repository h w = (Inr (export_manager w, ic), w3)"
proof -
  obtain r w3 where o: "open_repository h w = (r, w3)"
    by (cases "open_repository h w")
  have "\<not> isl r"
    using o assms
    by (auto simp: open_repository_def RepositoryManager_new_def initializeRepository_def
        git_init_def git_addConfig_def getCommitCount_eq Let_def split: if_splits)
  then obtain m ic where "r = Inr (m, ic)"
    by (cases r) auto
  then show ?thesis
    using o open_repository_result [of h w m ic w3] by simp
qed

lemma open_repository_baseline:
  assumes "open_repository h w = (Inr (m, ic), w3)"
  shows "ic = length (baseline_history w) \<or> ic = 0"
  using assms git_dir_not_dir [of "export_path w"]
  by (auto simp: open_repository_def RepositoryManager_new_def initializeRepository_def
      git_init_def git_addConfig_def getCommitCount_eq baseline_history_def export_path_def
      Let_def split: if_splits option.splits)

lemma createCommit_created:
  assumes "\<forall>d args v. raw_fails h d args v = None" and "co_date options \<noteq> None"
  shows "fst (createCommit h m options w) = Inr ()"
  using assms by (auto simp: createCommit_def git_raw_def Let_def split: prod.splits)

lemma attempt_results_all_created:
  assumes "\<forall>d args v. raw_fails h d args v = None"
    and "\<forall>c \<in> set cs. Date_parse h (c_timestamp c) \<noteq> None"
  shows "attempt_results h m an ae anon len cs st = map (\<lambda>c. Inr ()) cs"
  using assms(2)
proof (induction cs arbitrary: st)
  case Nil
  then show ?case by simp
next
  case (Cons c cs)
  then show ?case
    using createCommit_created [OF assms(1), of "commit_request h an ae anon c" m "snd st"]
    by simp
qed

lemma successes_all_created: "successes cs (map (\<lambda>c. Inr ()) cs) = cs"
  by (induction cs) (simp_all add: successes_def)

lemma format_history_all_created:
  assumes avail: "version_fails h w = None"
    and valid: "cref < length (arrays w)"
    and ne: "arrays w ! cref \<noteq> []"
    and opened: "open_repository h (record_call GitVersion w) = (Inr (m, ic), w3)"
    and raw: "\<forall>d args v. raw_fails h d args v = None"
    and dates: "\<forall>c \<in> set (sort_by_timestamp h (arrays w ! cref)). Date_parse h (c_timestamp c) \<noteq> None"
  shows "history (snd (format h cref opts w)) (export_path w) =
           baseline_history w @
             map (\<lambda>c. made_commit h (format_request h opts w c))
               (sort_by_timestamp h (arrays w ! cref))"
proof -
  note u = format_unfold(2) [OF avail valid ne opened refl refl refl refl refl, of opts]
  have rs: "format_attempts h cref opts w =
      map (\<lambda>c. Inr ()) (sort_by_timestamp h (arrays w ! cref))"
    unfolding u using raw dates by (rule attempt_results_all_created)
  show ?thesis
    unfolding format_final_world(1) [OF avail valid ne opened refl refl refl, of opts] rs
    by (simp only: successes_all_created)
qed

lemma mset_take_drop: "mset (take n xs) + mset (drop n xs) = mset xs"
  by (metis append_take_drop_id mset_append)

lemma binary_insertion_mset:
  "mset (binary_insertion cmp placed rest) = mset placed + mset rest"
proof (induction rest arbitrary: placed)
  case Nil
  then show ?case by simp
next
  case (Cons p rest)
  have "mset (take n placed @ [p] @ drop n placed) = add_mset p (mset placed)" for n
    by (simp add: mset_take_drop)
  then show ?case
    using Cons by (simp add: Let_def)
qed

lemma short_array_sort_mset: "mset (short_array_sort cmp xs) = mset xs"
proof -
  obtain ys n where r: "count_and_make_run cmp xs = (ys, n)"
    by (cases "count_and_make_run cmp xs")
  have "mset ys = mset xs"
    using r
    by (auto simp: count_and_make_run_def Let_def mset_take_drop split: list.splits if_splits)
  then show ?thesis
    by (simp add: short_array_sort_def r binary_insertion_mset mset_take_drop)
qed

lemma example_engine_permutes:
  "mset (engine_order example_host cs) = mset cs"
  by (simp add: example_host_def short_array_sort_mset)

lemma example_sorted:
  "array_sort (timestamp_compare example_host) example_contributions =
     [example_commit ''2026-01-01T10:00:00Z'' ''first'',
      example_commit ''2026-01-02T10:00:00Z'' ''second'',
      example_commit ''2026-01-03T10:00:00Z'' ''third'']"
  by (simp add: array_sort_def example_contributions_def timestamp_compare_def example_host_def
      example_instants_def example_commit_def not_after_def)

lemma failing_host_same [simp]:
  "dayjs_valueOf failing_host = dayjs_valueOf example_host"
  "Date_parse failing_host = Date_parse example_host"
  "toISOString failing_host = toISOString example_host"
  "version_fails failing_host = version_fails example_host"
  "init_fails failing_host = init_fails example_host"
  "addConfig_fails failing_host = addConfig_fails example_host"
  "log_fails failing_host = log_fails example_host"
  "engine_order failing_host = engine_order example_host"
  by (simp_all add: failing_host_def)

lemma timestamp_compare_failing_host [simp]:
  "timestamp_compare failing_host = timestamp_compare example_host"
  by (intro ext) (simp add: timestamp_compare_def split: option.splits)

lemma sort_by_timestamp_failing_host [simp]:
  "sort_by_timestamp failing_host = sort_by_timestamp example_host"
  by (intro ext) (simp add: sort_by_timestamp_def cong: if_cong)

lemma example_parse:
  "\<forall>c \<in> set example_contributions. dayjs_valueOf example_host (c_timestamp c) \<noteq> None"
  "\<forall>c \<in> set example_contributions. Date_parse example_host (c_timestamp c) \<noteq> None"
  by (simp_all add: example_contributions_def example_commit_def example_host_def
      example_instants_def)

lemma example_sorted_copy:
  "sort_by_timestamp example_host example_contributions =
     [example_commit ''2026-01-01T10:00:00Z'' ''first'',
      example_commit ''2026-01-02T10:00:00Z'' ''second'',
      example_commit ''2026-01-03T10:00:00Z'' ''third'']"
  using sort_by_timestamp_parsed [OF example_parse(1)] example_sorted by simp

lemma example_world_simps:
  "arrays example_world ! 0 = example_contributions"
  "0 < length (arrays example_world)"
  "export_path example_world = ''/work/git-contributions-export''"
  "baseline_history example_world = []"
  "commit_calls example_world = []"
  "warnings example_world = []"
  "env_or example_world ''GIT_AUTHOR_NAME'' defaultAuthorName = ''Git Activity Tracer''"
  "env_or example_world ''GIT_AUTHOR_EMAIL'' defaultAuthorEmail = ''noreply@example.com''"
  by (simp_all add: example_world_def export_path_def path_join_def outputDirectory_def
      baseline_history_def commit_calls_def warnings_def env_or_def truthy_def
      defaultAuthorName_def defaultAuthorEmail_def)

lemma example_contributions_nonempty: "arrays example_world ! 0 \<noteq> []"
  by (simp add: example_world_simps example_contributions_def)

lemma example_messages:
  "buildCommitMessage (example_commit ts txt) False =
     (if txt = [] then ''[commit]'' else ''[commit]: '' @ txt)"
  by (simp add: buildCommitMessage_def example_commit_def truthy_def)


lemma example_host_never_fails:
  "version_fails example_host w = None"
  "\<forall>d v. init_fails example_host d v = None"
  "\<forall>d v. addConfig_fails example_host d v = None"
  "\<forall>d args v. raw_fails example_host d args v = None"
  "\<forall>d v. log_fails example_host d v = None"
  by (simp_all add: example_host_def)

lemma example_commit_simps [simp]:
  "c_timestamp (example_commit ts txt) = ts"
  "c_type (example_commit ts txt) = ''commit''"
  by (simp_all add: example_commit_def)

lemma example_options_flag [simp]: "anonymize_flag example_options = False"
  by (simp add: anonymize_flag_def example_options_def)

lemma failing_host_opens:
  "\<exists>ic w3. open_repository failing_host w = (Inr (export_manager w, ic), w3)"
  by (rule open_repository_succeeds) (simp_all add: example_host_never_fails)

lemma example_format_returns:
  "\<exists>res. fst (format example_host 0 opts example_world) = Inr res"
  "\<exists>res. fst (format failing_host 0 opts example_world) = Inr res"
proof -
  obtain ic w3 where o: "open_repository example_host (record_call GitVersion example_world) =
      (Inr (export_manager (record_call GitVersion example_world), ic), w3)"
    using open_repository_succeeds [OF example_host_never_fails(2,3)] by blast
  show "\<exists>res. fst (format example_host 0 opts example_world) = Inr res"
    using format_final_world(6) [OF example_host_never_fails(1) example_world_simps(2)
        example_contributions_nonempty o refl refl refl] .
  have v: "version_fails failing_host example_world = None"
    by (simp add: example_host_never_fails)
  obtain ic' w3' where o': "open_repository failing_host (record_call GitVersion example_world) =
      (Inr (export_manager (record_call GitVersion example_world), ic'), w3')"
    using failing_host_opens by blast
  show "\<exists>res. fst (format failing_host 0 opts example_world) = Inr res"
    using format_final_world(6) [OF v example_world_simps(2)
        example_contributions_nonempty o' refl refl refl] .
qed

theorem format_commits_in_timestamp_order_witness:
  "\<not> isl (fst (format example_host 0 example_options example_world)) \<and>
   commit_calls (snd (format example_host 0 example_options example_world)) =
     [GitRaw ''/work/git-contributions-export''
        [''commit'', ''--allow-empty'', ''--message'', ''[commit]: first'', ''--author'',
         ''Git Activity Tracer <noreply@example.com>'']
        [Some ''2026-01-01T10:00:00.000Z'', Some ''2026-01-01T10:00:00.000Z'',
         Some ''Git Activity Tracer'', Some ''noreply@example.com''],
      GitRaw ''/work/git-contributions-export''
        [''commit'', ''--allow-empty'', ''--message'', ''[commit]: second'', ''--author'',
         ''Git Activity Tracer <noreply@example.com>'']
        [Some ''2026-01-02T10:00:00.000Z'', Some ''2026-01-02T10:00:00.000Z'',
         Some ''Git Activity Tracer'', Some ''noreply@example.com''],
      GitRaw ''/work/git-contributions-export''
        [''commit'', ''--allow-empty'', ''--message'', ''[commit]: third'', ''--author'',
         ''Git Activity Tracer <noreply@example.com>'']
        [Some ''2026-01-03T10:00:00.000Z'', Some ''2026-01-03T10:00:00.000Z'',
         Some ''Git Activity Tracer'', Some ''noreply@example.com'']] \<and>
   arrays (snd (format example_host 0 example_options example_world)) ! 0 = example_contributions"
proof -
  obtain res where res: "fst (format example_host 0 example_options example_world) = Inr res"
    using example_format_returns(1) by blast
  then have f: "format example_host 0 example_options example_world =
      (Inr res, snd (format example_host 0 example_options example_world))"
    by (simp add: prod_eq_iff)
  have p: "\<forall>c \<in> set (arrays example_world ! 0).
      dayjs_valueOf example_host (c_timestamp c) \<noteq> None"
    using example_parse(1) by (simp add: example_world_simps)
  note inst = format_commits_in_timestamp_order [OF f p]
  have calls: "commit_calls (snd (format example_host 0 example_options example_world)) =
      commit_calls example_world @
        map (\<lambda>c. commit_call example_host (export_manager example_world)
                   (format_request example_host example_options example_world c))
          (filter (\<lambda>c. Date_parse example_host (c_timestamp c) \<noteq> None)
             (array_sort (timestamp_compare example_host) (arrays example_world ! 0)))"
    using inst by blast
  have keep: "arrays (snd (format example_host 0 example_options example_world)) ! 0 =
      arrays example_world ! 0"
    using inst by blast
  have d: "Date_parse example_host ''2026-01-01T10:00:00Z'' = Some 1767261600000"
    "Date_parse example_host ''2026-01-02T10:00:00Z'' = Some 1767348000000"
    "Date_parse example_host ''2026-01-03T10:00:00Z'' = Some 1767434400000"
    "toISOString example_host = example_iso"
    by (simp_all add: example_host_def example_instants_def)
  show ?thesis
    unfolding calls keep
    by (simp add: res example_world_simps example_sorted commit_call_def format_request_def
        commit_request_def example_messages export_manager_def author_string_def d
        example_iso_def)
qed

lemma failing_host_createCommit:
  "fst (createCommit failing_host m options w) =
     (if co_date options = None then Inl (RangeError ''Invalid time value'')
      else if co_message options = ''[commit]: second'' then Inl (Error ''simulated tool error'')
      else Inr ())"
  by (auto simp: createCommit_def git_raw_def failing_host_def Let_def split: prod.splits)

lemma failing_host_attempts:
  "format_attempts failing_host 0 example_options example_world =
     [Inr (), Inl (Error ''simulated tool error''), Inr ()]"
proof -
  have v: "version_fails failing_host example_world = None"
    by (simp add: example_host_never_fails)
  obtain ic w3 where o: "open_repository failing_host (record_call GitVersion example_world) =
      (Inr (export_manager (record_call GitVersion example_world), ic), w3)"
    using failing_host_opens by blast
  have d: "Date_parse example_host ''2026-01-01T10:00:00Z'' = Some 1767261600000"
    "Date_parse example_host ''2026-01-02T10:00:00Z'' = Some 1767348000000"
    "Date_parse example_host ''2026-01-03T10:00:00Z'' = Some 1767434400000"
    by (simp_all add: example_host_def example_instants_def)
  show ?thesis
    unfolding format_unfold(2) [OF v example_world_simps(2) example_contributions_nonempty o
        refl refl refl refl refl]
    by (simp add: example_world_simps example_sorted_copy failing_host_createCommit
        example_messages d)
qed

lemma example_host_createCommit:
  "fst (createCommit example_host m options w) =
     (if co_date options = None then Inl (RangeError ''Invalid time value'') else Inr ())"
  by (auto simp: createCommit_def git_raw_def example_host_def Let_def split: prod.splits)

lemma garbled_world_simps:
  "arrays garbled_world ! 0 = garbled_contributions"
  "0 < length (arrays garbled_world)"
  "export_path garbled_world = ''/work/git-contributions-export''"
  "baseline_history garbled_world = []"
  "commit_calls garbled_world = []"
  "warnings garbled_world = []"
  "env_or garbled_world ''GIT_AUTHOR_NAME'' defaultAuthorName = ''Git Activity Tracer''"
  "env_or garbled_world ''GIT_AUTHOR_EMAIL'' defaultAuthorEmail = ''noreply@example.com''"
  by (simp_all add: garbled_world_def example_world_def export_path_def path_join_def
      outputDirectory_def baseline_history_def commit_calls_def warnings_def env_or_def
      truthy_def defaultAuthorName_def defaultAuthorEmail_def)

lemma garbled_nonempty: "arrays garbled_world ! 0 \<noteq> []"
  by (simp add: garbled_world_simps garbled_contributions_def)

lemma garbled_sorted_copy:
  "sort_by_timestamp example_host garbled_contributions =
     [example_commit ''2026-01-01T10:00:00Z'' ''first'',
      example_commit ''2026-01-02T10:00:00Z'' ''second'',
      example_commit ''2026-01-03T10:00:00Z'' ''third'',
      example_commit ''garbage'' ''bad'']"
proof -
  have "\<not> (\<forall>x \<in> set garbled_contributions.
            dayjs_valueOf example_host (c_timestamp x) \<noteq> None)"
    by (simp add: garbled_contributions_def example_host_def example_instants_def)
  then have "sort_by_timestamp example_host garbled_contributions =
      engine_order example_host garbled_contributions"
    by (simp only: sort_by_timestamp_def if_False)
  then have "sort_by_timestamp example_host garbled_contributions =
      short_array_sort example_compare garbled_contributions"
    by (simp add: example_host_def)
  then show ?thesis
    by (simp add: short_array_sort_def garbled_contributions_def count_and_make_run_def
        binary_search.simps example_compare_def example_instants_def)
qed

lemma garbled_attempts:
  "format_attempts example_host 0 example_options garbled_world =
     [Inr (), Inr (), Inr (), Inl (RangeError ''Invalid time value'')]"
proof -
  obtain ic w3 where o: "open_repository example_host (record_call GitVersion garbled_world) =
      (Inr (export_manager (record_call GitVersion garbled_world), ic), w3)"
    using open_repository_succeeds [OF example_host_never_fails(2,3)] by blast
  have d: "Date_parse example_host ''2026-01-01T10:00:00Z'' = Some 1767261600000"
    "Date_parse example_host ''2026-01-02T10:00:00Z'' = Some 1767348000000"
    "Date_parse example_host ''2026-01-03T10:00:00Z'' = Some 1767434400000"
    "Date_parse example_host ''garbage'' = None"
    by (simp_all add: example_host_def example_instants_def)
  show ?thesis
    unfolding format_unfold(2) [OF example_host_never_fails(1) garbled_world_simps(2)
        garbled_nonempty o refl refl refl refl refl]
    by (simp add: garbled_world_simps garbled_sorted_copy example_host_createCommit d)
qed

theorem format_tolerates_one_failure_witness:
  "format_attempts failing_host 0 example_options example_world =
     [Inr (), Inl (Error ''simulated tool error''), Inr ()] \<and>
   mset (engine_order failing_host (arrays example_world ! 0)) = mset (arrays example_world ! 0) \<and>
   map commit_message
     (history (snd (format failing_host 0 example_options example_world))
        ''/work/git-contributions-export'') = [''[commit]: first'', ''[commit]: third''] \<and>
   warnings (snd (format failing_host 0 example_options example_world)) =
     [ConsoleWarn [''Warning: Failed to create commit for commit at 2026-01-02T10:00:00Z:'',
                   ''simulated tool error'']] \<and>
   fst (format failing_host 0 example_options example_world) =
     Inr \<lparr>content = join_str [CHR 0x0A]
            [[CHR 0x0A, CHR 0xE2, CHR 0x9C, CHR 0x85] @ '' Git export completed successfully!'' @
               [CHR 0x0A],
             ''Repository location: /work/git-contributions-export'',
             ''Total commits: 2'',
             ''New commits created: 2'',
             ''Contributions exported: 3'',
             ''Author: Git Activity Tracer <noreply@example.com>'',
             [CHR 0x0A] @ ''To push to GitHub:'',
             ''  cd git-contributions-export'',
             ''  git remote add origin git@github.com:username/activity-showcase.git'',
             ''  git branch -M main'',
             ''  git push -u origin main --force'']\<rparr> \<and>
   format_attempts example_host 0 example_options garbled_world =
     [Inr (), Inr (), Inr (), Inl (RangeError ''Invalid time value'')] \<and>
   mset (engine_order example_host (arrays garbled_world ! 0)) = mset (arrays garbled_world ! 0) \<and>
   map commit_message
     (history (snd (format example_host 0 example_options garbled_world))
        ''/work/git-contributions-export'') =
     [''[commit]: first'', ''[commit]: second'', ''[commit]: third''] \<and>
   warnings (snd (format example_host 0 example_options garbled_world)) =
     [ConsoleWarn [''Warning: Failed to create commit for commit at garbage:'',
                   ''Invalid time value'']]"
proof -
  let ?rs = "format_attempts failing_host 0 example_options example_world"
  let ?w' = "snd (format failing_host 0 example_options example_world)"
  let ?gs = "format_attempts example_host 0 example_options garbled_world"
  let ?g' = "snd (format example_host 0 example_options garbled_world)"
  have gone: "length (filter isl ?gs) = 1"
    by (simp add: garbled_attempts)
  have gperm: "mset (engine_order example_host (arrays garbled_world ! 0)) =
      mset (arrays garbled_world ! 0)"
    by (rule example_engine_permutes)
  note ginst = format_tolerates_one_failure [OF gone gperm]
  have gsorted: "sort_by_timestamp example_host (arrays garbled_world ! 0) =
     [example_commit ''2026-01-01T10:00:00Z'' ''first'',
      example_commit ''2026-01-02T10:00:00Z'' ''second'',
      example_commit ''2026-01-03T10:00:00Z'' ''third'',
      example_commit ''garbage'' ''bad'']"
    by (simp add: garbled_world_simps garbled_sorted_copy)
  have gsucc: "successes (sort_by_timestamp example_host (arrays garbled_world ! 0)) ?gs =
     [example_commit ''2026-01-01T10:00:00Z'' ''first'',
      example_commit ''2026-01-02T10:00:00Z'' ''second'',
      example_commit ''2026-01-03T10:00:00Z'' ''third'']"
    unfolding gsorted garbled_attempts by (simp add: successes_def)
  have gfail: "failures (sort_by_timestamp example_host (arrays garbled_world ! 0)) ?gs =
     [(example_commit ''garbage'' ''bad'', RangeError ''Invalid time value'')]"
    unfolding gsorted garbled_attempts by (simp add: failures_def)
  have ghist: "history ?g' (export_path garbled_world) =
      baseline_history garbled_world @
        map (\<lambda>c. made_commit example_host (format_request example_host example_options garbled_world c))
          [example_commit ''2026-01-01T10:00:00Z'' ''first'',
           example_commit ''2026-01-02T10:00:00Z'' ''second'',
           example_commit ''2026-01-03T10:00:00Z'' ''third'']"
    using ginst gsucc by simp
  have gwarn: "warnings ?g' =
      warnings garbled_world @
        [ConsoleWarn [''Warning: Failed to create commit for '' @
                        c_type (example_commit ''garbage'' ''bad'') @ '' at '' @
                        c_timestamp (example_commit ''garbage'' ''bad'') @ '':'',
                      error_message (RangeError ''Invalid time value'')]]"
    using ginst gfail by auto
  have g1: "map commit_message (history ?g' ''/work/git-contributions-export'') =
      [''[commit]: first'', ''[commit]: second'', ''[commit]: third'']"
    using ghist
    by (simp add: garbled_world_simps made_commit_def format_request_def example_messages)
  have g2: "warnings ?g' =
     [ConsoleWarn [''Warning: Failed to create commit for commit at garbage:'',
                   ''Invalid time value'']]"
    using gwarn by (simp add: garbled_world_simps)
  have one: "length (filter isl ?rs) = 1"
    by (simp add: failing_host_attempts)
  have perm: "mset (engine_order failing_host (arrays example_world ! 0)) =
      mset (arrays example_world ! 0)"
    by (simp add: example_engine_permutes)
  note inst = format_tolerates_one_failure [OF one perm]
  have sorted': "sort_by_timestamp failing_host (arrays example_world ! 0) =
     [example_commit ''2026-01-01T10:00:00Z'' ''first'',
      example_commit ''2026-01-02T10:00:00Z'' ''second'',
      example_commit ''2026-01-03T10:00:00Z'' ''third'']"
    by (simp add: example_world_simps example_sorted_copy)
  have succ: "successes (sort_by_timestamp failing_host (arrays example_world ! 0)) ?rs =
     [example_commit ''2026-01-01T10:00:00Z'' ''first'',
      example_commit ''2026-01-03T10:00:00Z'' ''third'']"
    unfolding sorted' failing_host_attempts by (simp add: successes_def)
  have fail: "failures (sort_by_timestamp failing_host (arrays example_world ! 0)) ?rs =
     [(example_commit ''2026-01-02T10:00:00Z'' ''second'', Error ''simulated tool error'')]"
    unfolding sorted' failing_host_attempts by (simp add: failures_def)
  have hist: "history ?w' (export_path example_world) =
      baseline_history example_world @
        map (\<lambda>c. made_commit failing_host (format_request failing_host example_options example_world c))
          [example_commit ''2026-01-01T10:00:00Z'' ''first'',
           example_commit ''2026-01-03T10:00:00Z'' ''third'']"
    using inst succ by simp
  have warn: "warnings ?w' =
      warnings example_world @
        [ConsoleWarn [''Warning: Failed to create commit for '' @
                        c_type (example_commit ''2026-01-02T10:00:00Z'' ''second'') @ '' at '' @
                        c_timestamp (example_commit ''2026-01-02T10:00:00Z'' ''second'') @ '':'',
                      error_message (Error ''simulated tool error'')]]"
    using inst fail by auto
  have quiet: "\<forall>v. log_fails failing_host (export_path example_world) v = None"
    by (simp add: example_host_never_fails)
  have counts: "format_counts failing_host 0 example_options example_world = (0, 2)"
    using inst quiet by (simp add: example_world_simps example_contributions_def)
  have ret: "fst (format failing_host 0 example_options example_world) =
      Inr \<lparr>content = join_str [CHR 0x0A]
            ([success_banner,
              ''Repository location: '' @ export_path example_world,
              ''Total commits: '' @ decimal 2,
              ''New commits created: '' @ string_of_int (int 2 - int 0),
              ''Contributions exported: '' @ decimal (length (arrays example_world ! 0)),
              ''Author: '' @ env_or example_world ''GIT_AUTHOR_NAME'' defaultAuthorName @ '' <'' @
                 env_or example_world ''GIT_AUTHOR_EMAIL'' defaultAuthorEmail @ ''>''] @
             (if opt_anonymize example_options = Some True then [''Anonymization: enabled''] else []) @
             push_instructions)\<rparr>"
    using inst unfolding counts by simp
  have "map commit_message (history ?w' ''/work/git-contributions-export'') =
      [''[commit]: first'', ''[commit]: third'']"
    using hist
    by (simp add: example_world_simps made_commit_def format_request_def example_messages)
  moreover have "warnings ?w' =
     [ConsoleWarn [''Warning: Failed to create commit for commit at 2026-01-02T10:00:00Z:'',
                   ''simulated tool error'']]"
    using warn by (simp add: example_world_simps)
  moreover have "fst (format failing_host 0 example_options example_world) =
     Inr \<lparr>content = join_str [CHR 0x0A]
            [[CHR 0x0A, CHR 0xE2, CHR 0x9C, CHR 0x85] @ '' Git export completed successfully!'' @
               [CHR 0x0A],
             ''Repository location: /work/git-contributions-export'',
             ''Total commits: 2'',
             ''New commits created: 2'',
             ''Contributions exported: 3'',
             ''Author: Git Activity Tracer <noreply@example.com>'',
             [CHR 0x0A] @ ''To push to GitHub:'',
             ''  cd git-contributions-export'',
             ''  git remote add origin git@github.com:username/activity-showcase.git'',
             ''  git branch -M main'',
             ''  git push -u origin main --force'']\<rparr>"
    unfolding ret
    by (simp add: example_world_simps example_contributions_def example_options_def
        success_banner_def push_instructions_def outputDirectory_def string_of_int_def
        decimal.simps digit_char_def)
  ultimately show ?thesis
    using perm failing_host_attempts garbled_attempts gperm g1 g2 by simp
qed

lemma example_counts:
  "format_counts example_host 0 opts example_world = (0, 3)"
proof -
  obtain ic w3 where o: "open_repository example_host (record_call GitVersion example_world) =
      (Inr (export_manager (record_call GitVersion example_world), ic), w3)"
    using open_repository_succeeds [OF example_host_never_fails(2,3)] by blast
  note r = example_host_never_fails(1) example_world_simps(2) example_contributions_nonempty o
  have dates: "\<forall>c \<in> set (sort_by_timestamp example_host (arrays example_world ! 0)).
      Date_parse example_host (c_timestamp c) \<noteq> None"
    unfolding example_world_simps(1) example_sorted_copy
    by (simp add: example_host_def example_instants_def)
  have "length (history (snd (format example_host 0 opts example_world))
                  (export_path example_world)) = 3"
    unfolding format_history_all_created [OF r example_host_never_fails(4) dates, of opts]
    by (simp add: example_world_simps example_sorted_copy)
  then show ?thesis
    using format_counts_exact [OF r, of opts] example_host_never_fails(5)
    by (simp add: example_world_simps)
qed

lemma example_summary:
  "fst (format example_host 0 opts example_world) =
     Inr \<lparr>content = join_str [CHR 0x0A]
            ([[CHR 0x0A, CHR 0xE2, CHR 0x9C, CHR 0x85] @ '' Git export completed successfully!'' @
                [CHR 0x0A],
              ''Repository location: /work/git-contributions-export'',
              ''Total commits: 3'',
              ''New commits created: 3'',
              ''Contributions exported: 3'',
              ''Author: Git Activity Tracer <noreply@example.com>''] @
             (if opt_anonymize opts = Some True then [''Anonymization: enabled''] else []) @
             [[CHR 0x0A] @ ''To push to GitHub:'',
              ''  cd git-contributions-export'',
              ''  git remote add origin git@github.com:username/activity-showcase.git'',
              ''  git branch -M main'',
              ''  git push -u origin main --force''])\<rparr>"
proof -
  obtain ic w3 where o: "open_repository example_host (record_call GitVersion example_world) =
      (Inr (export_manager (record_call GitVersion example_world), ic), w3)"
    using open_repository_succeeds [OF example_host_never_fails(2,3)] by blast
  note r = example_host_never_fails(1) example_world_simps(2) example_contributions_nonempty o
  show ?thesis
    unfolding format_summary [OF r, of opts] example_counts
    by (simp add: example_world_simps example_contributions_def success_banner_def
        push_instructions_def outputDirectory_def string_of_int_def decimal.simps digit_char_def)
qed

text \<open>
  C9, as the claim states it, fails where anonymization is disabled: the summary of the
  example call, made with \<^verbatim>\<open>anonymize: false\<close>, has no line about anonymization and does not
  mention it anywhere.
\<close>

theorem format_summary_silent_counterexample:
  "opt_anonymize example_options = Some False \<and>
   arrays example_world ! 0 \<noteq> [] \<and>
   fst (format example_host 0 example_options example_world) =
     Inr \<lparr>content = join_str [CHR 0x0A]
            [[CHR 0x0A, CHR 0xE2, CHR 0x9C, CHR 0x85] @ '' Git export completed successfully!'' @
               [CHR 0x0A],
             ''Repository location: /work/git-contributions-export'',
             ''Total commits: 3'',
             ''New commits created: 3'',
             ''Contributions exported: 3'',
             ''Author: Git Activity Tracer <noreply@example.com>'',
             [CHR 0x0A] @ ''To push to GitHub:'',
             ''  cd git-contributions-export'',
             ''  git remote add origin git@github.com:username/activity-showcase.git'',
             ''  git branch -M main'',
             ''  git push -u origin main --force'']\<rparr> \<and>
   \<not> sublist ''nonymiz''
       (content (projr (fst (format example_host 0 example_options example_world))))"
proof -
  have off: "opt_anonymize example_options = Some False"
    by (simp add: example_options_def)
  have ret: "fst (format example_host 0 example_options example_world) =
     Inr \<lparr>content = join_str [CHR 0x0A]
            [[CHR 0x0A, CHR 0xE2, CHR 0x9C, CHR 0x85] @ '' Git export completed successfully!'' @
               [CHR 0x0A],
             ''Repository location: /work/git-contributions-export'',
             ''Total commits: 3'',
             ''New commits created: 3'',
             ''Contributions exported: 3'',
             ''Author: Git Activity Tracer <noreply@example.com>'',
             [CHR 0x0A] @ ''To push to GitHub:'',
             ''  cd git-contributions-export'',
             ''  git remote add origin git@github.com:username/activity-showcase.git'',
             ''  git branch -M main'',
             ''  git push -u origin main --force'']\<rparr>"
    unfolding example_summary by (simp add: off)
  have silent: "\<not> sublist ''nonymiz''
       (content (projr (fst (format example_host 0 example_options example_world))))"
    unfolding ret by (simp add: sublist_Cons_right)
  show ?thesis
    using off example_contributions_nonempty ret silent by (simp only: simp_thms)
qed

theorem format_summary_contents_witness:
  "\<not> isl (fst (format example_host 0 (example_options\<lparr>opt_anonymize := Some True\<rparr>) example_world)) \<and>
   arrays example_world ! 0 \<noteq> [] \<and>
   sublist ''Repository location: /work/git-contributions-export''
     (content (projr (fst (format example_host 0 (example_options\<lparr>opt_anonymize := Some True\<rparr>)
                             example_world)))) \<and>
   sublist ''Total commits: 3''
     (content (projr (fst (format example_host 0 (example_options\<lparr>opt_anonymize := Some True\<rparr>)
                             example_world)))) \<and>
   sublist ''New commits created: 3''
     (content (projr (fst (format example_host 0 (example_options\<lparr>opt_anonymize := Some True\<rparr>)
                             example_world)))) \<and>
   sublist ''Anonymization: enabled''
     (content (projr (fst (format example_host 0 (example_options\<lparr>opt_anonymize := Some True\<rparr>)
                             example_world))))"
proof -
  let ?opts = "example_options\<lparr>opt_anonymize := Some True\<rparr>"
  obtain res where res: "fst (format example_host 0 ?opts example_world) = Inr res"
    using example_format_returns(1) by blast
  then have f: "format example_host 0 ?opts example_world =
      (Inr res, snd (format example_host 0 ?opts example_world))"
    by (simp add: prod_eq_iff)
  note inst = format_summary_contents [OF f example_contributions_nonempty]
  have on: "opt_anonymize ?opts = Some True"
    by simp
  have "sublist (''Repository location: '' @ export_path example_world) (content res)"
    using inst by blast
  then have a: "sublist ''Repository location: /work/git-contributions-export'' (content res)"
    by (simp add: example_world_simps)
  have "sublist (''Total commits: '' @ decimal (snd (format_counts example_host 0 ?opts example_world)))
          (content res)"
    using inst by blast
  then have b: "sublist ''Total commits: 3'' (content res)"
    unfolding example_counts by (simp add: decimal.simps digit_char_def)
  have "sublist (''New commits created: '' @
                    string_of_int (int (snd (format_counts example_host 0 ?opts example_world)) -
                                   int (fst (format_counts example_host 0 ?opts example_world))))
          (content res)"
    using inst by blast
  then have c: "sublist ''New commits created: 3'' (content res)"
    unfolding example_counts by (simp add: string_of_int_def decimal.simps digit_char_def)
  have d: "sublist ''Anonymization: enabled'' (content res)"
    using inst on by blast
  show ?thesis
    using a b c d example_contributions_nonempty by (simp add: res)
qed

end
